theory Spec2Isabelle
  imports Complex_Main "HOL-Library.Word"
begin

unbundle bit_operations_syntax

section \<open>Configuration, alerts and the global state\<close>

text \<open>
  Python floats are modelled by real numbers throughout: comparisons and arithmetic are
  exact, rounding is not modelled. The \<^verbatim>\<open>settings\<close> dictionary is a record of the entries
  the modelled functions read.
\<close>

record settings =
  num_series_banks :: nat
  sensors_per_bank :: nat
  number_of_parallel_batteries :: nat
  modbus_slave_addresses :: "nat list"
  scaling_factor :: real
  max_retries :: nat
  valid_min :: real
  high_threshold :: real
  low_threshold :: real
  abs_deviation_threshold :: real
  deviation_threshold :: real
  min_voltage_delta :: real
  VoltageDifferenceToBalance :: real
  BalanceRestPeriodSeconds :: real
  HighVoltageThresholdPerBattery :: real
  LowVoltageThresholdPerBattery :: real
  VoltageDividerRatio :: real
  Sensor_Calibration :: "nat \<Rightarrow> real"

text \<open>
  An alert is an f-string in the source. Its constructor names the message and carries
  the values the source formats into it; \<open>Other_alert\<close> stands for the messages of the
  parts of the poll cycle that are not modelled (the checks against the previous poll and
  the cabinet over-temperature check), which only ever append to the alert list.
\<close>

datatype alert =
    Slave_failed nat string
  | Invalid_reading int "nat option" int real
  | High_temp int "nat option" int real real
  | Low_temp int "nat option" int real real
  | Deviation int "nat option" int real real
  | Balancing_failed nat nat real real
  | Startup_failures "string list"
  | Balancer_failure
  | Zero_voltage nat
  | High_voltage nat real
  | Low_voltage nat real
  | Other_alert string

text \<open>
  The module-level variables that the modelled functions declare \<^verbatim>\<open>global\<close>, and the
  entries of \<^verbatim>\<open>web_data\<close> that a poll publishes.
\<close>

record bms_state =
  balancer_failed :: bool
  balancing_active :: bool
  last_balance_time :: real
  startup_failed :: bool
  startup_alerts :: "string list"
  startup_set :: bool
  startup_offsets :: "real list option"
  startup_median :: "real option"
  web_voltages :: "real list"
  web_temperatures :: "real option list"
  web_alerts :: "alert list"

text \<open>
  An exception that no handler of the modelled code catches ends the process.
\<close>

datatype py_exception =
  TypeError | ValueError | IndexError | StatisticsError | OverflowError | ZeroDivisionError

text \<open>
  A list of steps that each return a value or raise, run in order up to the first
  exception.
\<close>

fun collect :: "('e + 'a) list \<Rightarrow> 'e + 'a list" where
  "collect [] = Inr []"
| "collect (x # xs) =
     (case x of
        Inl e \<Rightarrow> Inl e
      | Inr v \<Rightarrow> (case collect xs of Inl e \<Rightarrow> Inl e | Inr vs \<Rightarrow> Inr (v # vs)))"

section \<open>Frame codec: the Modbus CRC of \<^verbatim>\<open>modbus_crc\<close>\<close>

text \<open>
  A Python \<^verbatim>\<open>bytes\<close> value is a list of bytes; the running checksum \<^verbatim>\<open>crc\<close> is a
  Python integer, hence an \<^typ>\<open>int\<close> here. \<open>crc_shift\<close> is one pass of the inner
  loop of \<^verbatim>\<open>modbus_crc\<close>, \<open>crc_update\<close> the body of the outer loop for one byte,
  \<open>crc16\<close> the value of \<^verbatim>\<open>crc\<close> after the outer loop. \<^verbatim>\<open>int.to_bytes(2, 'little')\<close>
  raises OverflowError outside \<open>0..65535\<close>: the \<open>None\<close> of \<open>to_bytes2_little\<close>.
\<close>

type_synonym byte = "8 word"

definition crc_shift :: "int \<Rightarrow> int" where
  "crc_shift crc = (if crc AND 1 \<noteq> 0 then drop_bit 1 crc XOR 0xA001 else drop_bit 1 crc)"

definition crc_update :: "int \<Rightarrow> byte \<Rightarrow> int" where
  "crc_update crc b = (crc_shift ^^ 8) (crc XOR uint b)"

definition crc16 :: "byte list \<Rightarrow> int" where
  "crc16 data = foldl crc_update 0xFFFF data"

definition to_bytes2_little :: "int \<Rightarrow> byte list option" where
  "to_bytes2_little n =
     (if 0 \<le> n \<and> n < 65536 then Some [word_of_int (n mod 256), word_of_int (n div 256)]
      else None)"

definition modbus_crc :: "byte list \<Rightarrow> byte list option" where
  "modbus_crc data = to_bytes2_little (crc16 data)"

definition crc_ok :: "byte list \<Rightarrow> bool" where
  "crc_ok response =
     (modbus_crc (take (length response - 2) response) = Some (drop (length response - 2) response))"

definition frame_with_crc :: "byte list \<Rightarrow> byte list option" where
  "frame_with_crc data = (case modbus_crc data of None \<Rightarrow> None | Some crc \<Rightarrow> Some (data @ crc))"

definition wshift :: "16 word \<Rightarrow> 16 word" where
  "wshift w = (if bit w 0 then drop_bit 1 w XOR 0xA001 else drop_bit 1 w)"

definition wupdate :: "16 word \<Rightarrow> byte \<Rightarrow> 16 word" where
  "wupdate w b = (wshift ^^ 8) (w XOR ucast b)"

definition from_bytes2_little :: "byte list \<Rightarrow> int" where
  "from_bytes2_little bs = uint (bs ! 0) + 256 * uint (bs ! 1)"

text \<open>
  The check of a response in \<^verbatim>\<open>read_ntc_sensors\<close>:
  \<^verbatim>\<open>modbus_crc(response[:-2]) != response[-2:]\<close> raises; the slices of a response
  shorter than two bytes are the empty prefix and the whole response.
\<close>

section \<open>Topology resolver\<close>

text \<open>
  \<^verbatim>\<open>main\<close> fills the global \<^verbatim>\<open>BANK_SENSOR_INDICES\<close> from the configuration: for each parallel
  battery \<open>bat\<close> and each bank \<open>bank_id\<close> (both 0-based) it extends the bank's list by
  \<^verbatim>\<open>range(bank_base, bank_base + sensors_per_bank)\<close> with
  \<^verbatim>\<open>bank_base = bat * sensors_per_battery + bank_id * sensors_per_bank\<close> and
  \<^verbatim>\<open>sensors_per_battery = NUM_BANKS * sensors_per_bank\<close>. The three counts are positive
  after \<^verbatim>\<open>validate_config\<close>, hence naturals; a channel number is any Python integer.
\<close>

definition bank_sensor_indices :: "nat \<Rightarrow> nat \<Rightarrow> nat \<Rightarrow> nat list list" where
  "bank_sensor_indices num_banks per_bank number_parallel =
     map (\<lambda>bank_id.
            concat (map (\<lambda>bat.
                           [bat * (num_banks * per_bank) + bank_id * per_bank ..<
                            bat * (num_banks * per_bank) + bank_id * per_bank
                              + per_bank])
                        [0..<number_parallel]))
         [0..<num_banks]"

text \<open>
  \<^verbatim>\<open>get_bank_for_channel\<close>: the loop over \<^verbatim>\<open>enumerate(BANK_SENSOR_INDICES, 1)\<close> returns the
  first bank whose list holds \<^verbatim>\<open>ch - 1\<close>, and \<^verbatim>\<open>None\<close> after the loop.
\<close>

fun get_bank_loop :: "nat list list \<Rightarrow> nat \<Rightarrow> int \<Rightarrow> nat option" where
  "get_bank_loop [] bank_id ch = None"
| "get_bank_loop (indices # rest) bank_id ch =
     (if ch - 1 \<in> set (map int indices) then Some bank_id
      else get_bank_loop rest (Suc bank_id) ch)"

definition get_bank_for_channel :: "nat list list \<Rightarrow> int \<Rightarrow> nat option" where
  "get_bank_for_channel BANK_SENSOR_INDICES ch = get_bank_loop BANK_SENSOR_INDICES 1 ch"

text \<open>
  \<^verbatim>\<open>get_battery_and_local_ch\<close>: \<^verbatim>\<open>sensors_per_battery = 24\<close> is a literal of the function;
  \<^verbatim>\<open>//\<close> and \<^verbatim>\<open>%\<close> round towards minus infinity, as \<open>div\<close> and \<open>mod\<close> on \<^typ>\<open>int\<close> do.
\<close>

definition get_battery_and_local_ch :: "int \<Rightarrow> int \<times> int" where
  "get_battery_and_local_ch ch =
     (let sensors_per_battery = 24;
          bat_id = ((ch - 1) div sensors_per_battery) + 1;
          local_ch = ((ch - 1) mod sensors_per_battery) + 1
      in (bat_id, local_ch))"

text \<open>
  The layout the configuration gives: \<^verbatim>\<open>main\<close> stores the readings of the unit at
  position \<open>bat\<close> of \<^verbatim>\<open>modbus_slave_addresses\<close> at the 0-based indices
  \<open>bat * sensors_per_battery ..< (bat + 1) * sensors_per_battery\<close>, with
  \<^verbatim>\<open>sensors_per_battery = NUM_BANKS * sensors_per_bank\<close>. \<open>configured_battery_and_local\<close>
  is the 1-based battery and local channel of a channel in that layout.
\<close>

definition configured_battery_and_local :: "nat \<Rightarrow> nat \<Rightarrow> int \<Rightarrow> int \<times> int" where
  "configured_battery_and_local num_banks per_bank ch =
     (((ch - 1) div int (num_banks * per_bank)) + 1,
      ((ch - 1) mod int (num_banks * per_bank)) + 1)"

section \<open>Transport client: \<^verbatim>\<open>read_ntc_sensors\<close>\<close>

text \<open>
  Python renders an integer inside an f-string in decimal.
\<close>

fun str_of_nat :: "nat \<Rightarrow> string" where
  "str_of_nat n =
     (if n < 10 then [char_of (48 + n)]
      else str_of_nat (n div 10) @ [char_of (48 + n mod 10)])"

text \<open>
  \<^verbatim>\<open>int.from_bytes(chunk, 'big', signed=True)\<close> for a chunk of any length, and the chunks
  \<^verbatim>\<open>data[i:i+2]\<close> for \<^verbatim>\<open>i in range(0, len(data), 2)\<close> (the last chunk of an odd-length
  payload is a single byte).
\<close>

definition int_from_bytes_big_signed :: "byte list \<Rightarrow> int" where
  "int_from_bytes_big_signed bs =
     (let n = foldl (\<lambda>a b. a * 256 + uint b) 0 bs
      in if bs \<noteq> [] \<and> 2 ^ (8 * length bs - 1) \<le> n then n - 2 ^ (8 * length bs) else n)"

fun chunks2 :: "'a list \<Rightarrow> 'a list list" where
  "chunks2 [] = []"
| "chunks2 [x] = [[x]]"
| "chunks2 (x # y # rest) = [x, y] # chunks2 rest"

text \<open>
  What one pass of the \<^verbatim>\<open>try\<close> body does with the response it has read. The body either
  returns (a list of temperatures, or the message for a Modbus exception response),
  raises \<^verbatim>\<open>ValueError\<close>, or raises something else: the division by a zero
  \<^verbatim>\<open>scaling_factor\<close> is a \<^verbatim>\<open>ZeroDivisionError\<close>, which the last handler catches.
\<close>

datatype ntc_result = Temperatures "real list" | ErrorMessage string | Uncaught py_exception

datatype body_outcome = Return ntc_result | Raise_ValueError | Raise_other

definition validate_response :: "byte list \<Rightarrow> nat \<Rightarrow> nat \<Rightarrow> real \<Rightarrow> body_outcome" where
  "validate_response response slave_addr num_channels scaling =
     (let expected_data_length = num_channels * 2 in
      if length response < 5 then Raise_ValueError
      else if \<not> crc_ok response then Raise_ValueError
      else
        let slave = unat (response ! 0); func = response ! 1; byte_count = unat (response ! 2) in
        if slave \<noteq> slave_addr then Raise_ValueError
        else if func \<noteq> 3 then
          (if func AND 0x80 \<noteq> 0
           then Return (ErrorMessage (''Error: Modbus exception code '' @ str_of_nat (unat (response ! 2))
                                        @ '' for slave '' @ str_of_nat slave_addr))
           else Raise_ValueError)
        else if byte_count \<noteq> expected_data_length then Raise_ValueError
        else
          let data = take byte_count (drop 3 response) in
          if data \<noteq> [] \<and> scaling = 0 then Raise_other
          else Return (Temperatures
                         (map (\<lambda>chunk. real_of_int (int_from_bytes_big_signed chunk) / scaling)
                              (chunks2 data))))"

text \<open>
  The environment of one call: what the socket exchange of attempt \<open>k\<close> (connect, send,
  the reads until the response is complete or the wait budget is spent) ends in, and what
  \<^verbatim>\<open>test_modbus_connectivity\<close> answers after attempt \<open>k\<close> has failed. A timeout is a
  \<^verbatim>\<open>socket.timeout\<close>, a subclass of \<^verbatim>\<open>socket.error\<close>.
\<close>

datatype exchange = SocketError | Response "byte list" | OtherFailure

record ntc_env =
  exchange_of :: "nat \<Rightarrow> exchange"
  network_up :: "nat \<Rightarrow> bool"

text \<open>
  The two handlers for \<^verbatim>\<open>socket.error\<close> and \<^verbatim>\<open>ValueError\<close> take the same decisions: with the
  network up, retry unless this was the last attempt; with the network down, count it and
  give up at the third.
\<close>

datatype handler_outcome = Continue nat | Give_up string

definition retry_handler :: "ntc_env \<Rightarrow> nat \<Rightarrow> nat \<Rightarrow> nat \<Rightarrow> nat \<Rightarrow> handler_outcome" where
  "retry_handler env slave_addr retries attempt network_retry_count =
     (if network_up env attempt then
        (if int attempt < int retries - 1 then Continue network_retry_count
         else Give_up (''Error: Failed after '' @ str_of_nat retries @ '' attempts for slave ''
                         @ str_of_nat slave_addr))
      else
        (if network_retry_count + 1 < 3 then Continue (network_retry_count + 1)
         else Give_up (''Error: Network unreachable for slave '' @ str_of_nat slave_addr)))"

text \<open>
  The loop \<^verbatim>\<open>for attempt in range(max_retries)\<close>, on the attempts still to run. The second
  component of the result counts the socket exchanges made.
\<close>

fun ntc_attempts ::
  "ntc_env \<Rightarrow> nat \<Rightarrow> nat \<Rightarrow> real \<Rightarrow> nat \<Rightarrow> nat list \<Rightarrow> nat \<Rightarrow> ntc_result \<times> nat" where
  "ntc_attempts env slave_addr num_channels scaling retries [] nrc =
     (ErrorMessage (''Error: All retries exhausted for slave '' @ str_of_nat slave_addr), 0)"
| "ntc_attempts env slave_addr num_channels scaling retries (attempt # rest) nrc =
     (let body = (case exchange_of env attempt of
                    SocketError \<Rightarrow> None
                  | OtherFailure \<Rightarrow> Some Raise_other
                  | Response response \<Rightarrow>
                      Some (validate_response response slave_addr num_channels scaling));
          handled = (\<lambda>u :: unit. case retry_handler env slave_addr retries attempt nrc of
                       Give_up msg \<Rightarrow> (ErrorMessage msg, 1)
                     | Continue nrc' \<Rightarrow>
                         (case ntc_attempts env slave_addr num_channels scaling retries rest nrc'
                          of (r, n) \<Rightarrow> (r, Suc n)))
      in case body of
           None \<Rightarrow> handled ()
         | Some Raise_ValueError \<Rightarrow> handled ()
         | Some (Return r) \<Rightarrow> (r, 1)
         | Some Raise_other \<Rightarrow>
             (ErrorMessage (''Error: Unexpected failure for slave '' @ str_of_nat slave_addr), 1))"

text \<open>
  \<^verbatim>\<open>read_ntc_sensors\<close>. The query is built before the loop, outside any \<^verbatim>\<open>try\<close>:
  \<^verbatim>\<open>bytes([slave_addr, 3])\<close> raises \<^verbatim>\<open>ValueError\<close> for an address above 255 and
  \<^verbatim>\<open>num_channels.to_bytes(2, 'big')\<close> raises \<^verbatim>\<open>OverflowError\<close> for a count above 65535.
\<close>

definition read_ntc_sensors ::
  "ntc_env \<Rightarrow> nat \<Rightarrow> real \<Rightarrow> nat \<Rightarrow> nat \<Rightarrow> ntc_result \<times> nat" where
  "read_ntc_sensors env num_channels scaling retries slave_addr =
     (if 255 < slave_addr then (Uncaught ValueError, 0)
      else if 65535 < num_channels then (Uncaught OverflowError, 0)
      else ntc_attempts env slave_addr num_channels scaling retries [0..<retries] 0)"

section \<open>Issue aggregator and balance controller\<close>

text \<open>
  \<^verbatim>\<open>check_for_issues\<close>: the loop over \<^verbatim>\<open>enumerate(voltages, 1)\<close>, then the function. It
  reads the flags \<^verbatim>\<open>startup_failed\<close> and \<^verbatim>\<open>balancer_failed\<close> and assigns no global.
\<close>

fun voltage_alerts :: "settings \<Rightarrow> nat \<Rightarrow> real option list \<Rightarrow> alert list" where
  "voltage_alerts settings i [] = []"
| "voltage_alerts settings i (v # rest) =
     (case v of
        None \<Rightarrow> [Zero_voltage i]
      | Some x \<Rightarrow>
          if x = 0 then [Zero_voltage i]
          else if x > HighVoltageThresholdPerBattery settings then [High_voltage i x]
          else if x < LowVoltageThresholdPerBattery settings then [Low_voltage i x]
          else [])
     @ voltage_alerts settings (Suc i) rest"

definition check_for_issues ::
  "bms_state \<Rightarrow> settings \<Rightarrow> real option list \<Rightarrow> alert list \<Rightarrow> bool \<times> alert list" where
  "check_for_issues st settings voltages temps_alerts =
     (let alerts =
            (if startup_failed st \<and> startup_alerts st \<noteq> [] then [Startup_failures (startup_alerts st)]
             else [])
            @ (if balancer_failed st then [Balancer_failure] else [])
            @ voltage_alerts settings 1 voltages
            @ temps_alerts;
          alert_needed = (startup_failed st \<or> balancer_failed st
                          \<or> voltage_alerts settings 1 voltages \<noteq> [] \<or> temps_alerts \<noteq> [])
      in (alert_needed, alerts))"

text \<open>
  \<^verbatim>\<open>balance_battery_voltages\<close>. Its environment is what \<^verbatim>\<open>read_voltage_with_retry\<close> returns
  for the initial reads, for each pass of the timed loop in which the read interval has
  elapsed (how many there are is decided by the clock), and for the final reads, and the
  time at which the run ends. The calls to \<^verbatim>\<open>set_relay_connection\<close> and
  \<^verbatim>\<open>control_dcdc_converter\<close> are recorded in order.
\<close>

record balance_env =
  initial_high_v :: "real option"
  initial_low_v :: "real option"
  loop_reads :: "(real option \<times> real option) list"
  final_high_read :: "real option"
  final_low_read :: "real option"
  finish_time :: real

datatype actuation = Set_relay_connection nat nat | Control_dcdc_converter bool

datatype balance_log =
    Skipping_temperature_anomalies
  | Cannot_balance_zero_volts
  | Balancing_failed_logged
  | Balancing_verified
  | Insufficient_readings

record balance_result =
  state_after :: bms_state
  temps_alerts_after :: "alert list"
  actuations :: "actuation list"
  logged :: balance_log

fun trend_loop ::
  "(real option \<times> real option) list \<Rightarrow> real \<times> real \<Rightarrow> real list \<times> real list
     \<Rightarrow> (real \<times> real) \<times> (real list \<times> real list)" where
  "trend_loop [] v t = (v, t)"
| "trend_loop ((new_high, new_low) # rest) (voltage_high, voltage_low) (high_trend, low_trend) =
     (let voltage_high = (case new_high of None \<Rightarrow> voltage_high | Some v \<Rightarrow> v);
          voltage_low = (case new_low of None \<Rightarrow> voltage_low | Some v \<Rightarrow> v)
      in trend_loop rest (voltage_high, voltage_low)
           (high_trend @ [voltage_high], low_trend @ [voltage_low]))"

text \<open>
  The subtraction \<^verbatim>\<open>final_high_v - initial_high_v\<close> uses the initial read itself, not the
  trend value that replaces a missing read by 0.0: with a missing initial read it raises
  \<^verbatim>\<open>TypeError\<close>, after the converter and the relays have been switched off.
\<close>

definition balance_battery_voltages ::
  "bms_state \<Rightarrow> settings \<Rightarrow> balance_env \<Rightarrow> nat \<Rightarrow> nat \<Rightarrow> alert list \<Rightarrow> bool
     \<Rightarrow> (py_exception \<times> actuation list) + balance_result" where
  "balance_battery_voltages st settings env high low temps_alerts is_heating =
     (if temps_alerts \<noteq> [] then
        Inr \<lparr>state_after = st, temps_alerts_after = temps_alerts, actuations = [],
             logged = Skipping_temperature_anomalies\<rparr>
      else if initial_low_v env = Some 0 then
        Inr \<lparr>state_after = st\<lparr>balancing_active := False\<rparr>, temps_alerts_after = temps_alerts,
             actuations = [], logged = Cannot_balance_zero_volts\<rparr>
      else
        let voltage_high = (case initial_high_v env of None \<Rightarrow> 0 | Some v \<Rightarrow> v);
            voltage_low = (case initial_low_v env of None \<Rightarrow> 0 | Some v \<Rightarrow> v);
            ((voltage_high, voltage_low), (high_trend, low_trend)) =
               trend_loop (loop_reads env) (voltage_high, voltage_low) ([voltage_high], [voltage_low]);
            final_high_v = (case final_high_read env of None \<Rightarrow> voltage_high | Some v \<Rightarrow> v);
            final_low_v = (case final_low_read env of None \<Rightarrow> voltage_low | Some v \<Rightarrow> v);
            high_trend = high_trend @ [final_high_v];
            low_trend = low_trend @ [final_low_v];
            acts = [Set_relay_connection high low, Control_dcdc_converter True,
                    Control_dcdc_converter False, Set_relay_connection 0 0];
            st1 = st\<lparr>balancing_active := False, last_balance_time := finish_time env\<rparr>
        in if 3 \<le> length high_trend \<and> 3 \<le> length low_trend then
             (case (initial_high_v env, initial_low_v env) of
                (Some initial_high, Some initial_low) \<Rightarrow>
                  let high_change = final_high_v - initial_high;
                      low_change = final_low_v - initial_low;
                      min_delta = min_voltage_delta settings
                  in if high_change \<ge> 0 \<or> low_change \<le> 0 \<or> \<bar>high_change\<bar> < min_delta
                        \<or> low_change < min_delta
                     then Inr \<lparr>state_after = st1\<lparr>balancer_failed := True\<rparr>,
                               temps_alerts_after =
                                 temps_alerts @ [Balancing_failed high low high_change low_change],
                               actuations = acts, logged = Balancing_failed_logged\<rparr>
                     else Inr \<lparr>state_after = st1, temps_alerts_after = temps_alerts,
                               actuations = acts, logged = Balancing_verified\<rparr>
              | _ \<Rightarrow> Inl (TypeError, acts))
           else Inr \<lparr>state_after = st1, temps_alerts_after = temps_alerts,
                     actuations = acts, logged = Insufficient_readings\<rparr>)"

text \<open>
  The analysis of one pair in the balancer test of \<^verbatim>\<open>startup_self_test\<close>, which uses the
  same trend test: the result says whether that path executes \<^verbatim>\<open>balancer_failed = True\<close>.
  Missing reads are 0.0 there (\<^verbatim>\<open>read_voltage_with_retry(...)[0] or 0.0\<close>).
\<close>

definition startup_balance_analysis :: "real \<Rightarrow> nat \<Rightarrow> real \<Rightarrow> real \<Rightarrow> real \<Rightarrow> real \<Rightarrow> bool" where
  "startup_balance_analysis min_delta len_source_trend initial_source_v final_source_v
     initial_dest_v final_dest_v =
     (if 3 \<le> len_source_trend then
        (let source_change = final_source_v - initial_source_v;
             dest_change = final_dest_v - initial_dest_v
         in min_delta > 0 \<and> (source_change \<ge> 0 \<or> dest_change \<le> 0
                               \<or> \<bar>source_change\<bar> < min_delta \<or> dest_change < min_delta))
      else True)"

text \<open>
  The balance decision of \<^verbatim>\<open>main\<close>, from \<^verbatim>\<open>check_for_issues\<close> to the update of \<^verbatim>\<open>web_data\<close>.
  \<^verbatim>\<open>max\<close> and \<^verbatim>\<open>min\<close> of an empty list raise \<^verbatim>\<open>ValueError\<close>; \<^verbatim>\<open>list.index\<close> gives the first
  position of a value.
\<close>

fun py_max :: "real list \<Rightarrow> real" where
  "py_max [] = 0"
| "py_max (x # xs) = fold (\<lambda>y m. if y > m then y else m) xs x"

fun py_min :: "real list \<Rightarrow> real" where
  "py_min [] = 0"
| "py_min (x # xs) = fold (\<lambda>y m. if y < m then y else m) xs x"

fun index_of :: "real \<Rightarrow> real list \<Rightarrow> nat" where
  "index_of v [] = 0"
| "index_of v (x # xs) = (if x = v then 0 else Suc (index_of v xs))"

record decision_input =
  battery_voltages :: "real list"
  temps_alerts :: "alert list"
  calibrated_temps :: "real option list"
  current_time :: real
  balance_run :: balance_env

record decision_output =
  alert_needed :: bool
  all_alerts :: "alert list"
  relay_actuations :: "actuation list"
  balance_logged :: "balance_log option"
  temps_alerts_out :: "alert list"

definition publish :: "bms_state \<Rightarrow> decision_input \<Rightarrow> alert list \<Rightarrow> bms_state" where
  "publish st inp alerts =
     st\<lparr>web_voltages := battery_voltages inp, web_temperatures := calibrated_temps inp,
        web_alerts := alerts\<rparr>"

definition balance_decision ::
  "settings \<Rightarrow> decision_input \<Rightarrow> bms_state
     \<Rightarrow> (py_exception \<times> actuation list) + (bms_state \<times> decision_output)" where
  "balance_decision settings inp st =
     (let (alert_needed, all_alerts) =
            check_for_issues st settings (map Some (battery_voltages inp)) (temps_alerts inp);
          no_call = Inr (publish st inp all_alerts,
                         \<lparr>alert_needed = alert_needed, all_alerts = all_alerts,
                          relay_actuations = [], balance_logged = None,
                          temps_alerts_out = temps_alerts inp\<rparr>)
      in if length (battery_voltages inp) = num_series_banks settings \<and> \<not> balancer_failed st then
           (if battery_voltages inp = [] then Inl (ValueError, [])
            else
              let max_v = py_max (battery_voltages inp);
                  min_v = py_min (battery_voltages inp);
                  high_b = index_of max_v (battery_voltages inp) + 1;
                  low_b = index_of min_v (battery_voltages inp) + 1;
                  any_low_temp = (\<exists>t \<in> set (calibrated_temps inp).
                                     case t of None \<Rightarrow> False | Some x \<Rightarrow> x < 10)
              in if balancing_active st
                    \<or> (\<not> alert_needed
                        \<and> (any_low_temp \<or> max_v - min_v > VoltageDifferenceToBalance settings)
                        \<and> min_v > 0
                        \<and> current_time inp - last_balance_time st > BalanceRestPeriodSeconds settings)
                 then
                   (case balance_battery_voltages st settings (balance_run inp) high_b low_b
                           (temps_alerts inp) any_low_temp of
                      Inl e \<Rightarrow> Inl e
                    | Inr r \<Rightarrow>
                        Inr (publish ((state_after r)\<lparr>balancing_active := False\<rparr>) inp all_alerts,
                             \<lparr>alert_needed = alert_needed, all_alerts = all_alerts,
                              relay_actuations = actuations r, balance_logged = Some (logged r),
                              temps_alerts_out = temps_alerts_after r\<rparr>))
                 else no_call)
         else no_call)"





text \<open>
  A configuration and a start state for concrete runs: 3 banks of 8 sensors, 2 parallel
  batteries on units 1 and 2, and the source's default thresholds where it has one.
\<close>

definition demo_settings :: settings where
  "demo_settings =
     \<lparr>num_series_banks = 3, sensors_per_bank = 8, number_of_parallel_batteries = 2,
      modbus_slave_addresses = [1, 2], scaling_factor = 100, max_retries = 3, valid_min = 0,
      high_threshold = 42, low_threshold = 0, abs_deviation_threshold = 2,
      deviation_threshold = 1 / 10, min_voltage_delta = 1 / 100,
      VoltageDifferenceToBalance = 1 / 10, BalanceRestPeriodSeconds = 60,
      HighVoltageThresholdPerBattery = 25, LowVoltageThresholdPerBattery = 18,
      VoltageDividerRatio = 1 / 100, Sensor_Calibration = (\<lambda>i. 1)\<rparr>"

definition demo_state :: bms_state where
  "demo_state =
     \<lparr>balancer_failed = False, balancing_active = False, last_balance_time = 0,
      startup_failed = False, startup_alerts = [], startup_set = False,
      startup_offsets = None, startup_median = None,
      web_voltages = [], web_temperatures = [], web_alerts = []\<rparr>"



text \<open>
  A small pack for concrete polls: 2 banks of 1 sensor, 2 parallel batteries on units 1 and
  2 (4 channels). Unit 1 answers the query for 2 registers with 25.00 and 26.00 degrees;
  every exchange with unit 2 times out while the network is up.
\<close>

definition demo_pair_settings :: settings where
  "demo_pair_settings =
     \<lparr>num_series_banks = 2, sensors_per_bank = 1, number_of_parallel_batteries = 2,
      modbus_slave_addresses = [1, 2], scaling_factor = 100, max_retries = 3, valid_min = 0,
      high_threshold = 42, low_threshold = 0, abs_deviation_threshold = 2,
      deviation_threshold = 1 / 10, min_voltage_delta = 1 / 100,
      VoltageDifferenceToBalance = 1 / 10, BalanceRestPeriodSeconds = 60,
      HighVoltageThresholdPerBattery = 25, LowVoltageThresholdPerBattery = 18,
      VoltageDividerRatio = 3 / 20, Sensor_Calibration = (\<lambda>i. 32767 / 32768)\<rparr>"

definition demo_unit_env :: "nat \<Rightarrow> ntc_env" where
  "demo_unit_env i =
     (if i = 0
      then \<lparr>exchange_of = (\<lambda>k. Response [1, 3, 4, 0x09, 0xC4, 0x0A, 0x28, 0xBE, 0xEC]),
            network_up = (\<lambda>k. True)\<rparr>
      else \<lparr>exchange_of = (\<lambda>k. SocketError), network_up = (\<lambda>k. True)\<rparr>)"

section \<open>Voltage acquisition: \<^verbatim>\<open>read_voltage_with_retry\<close>\<close>

text \<open>
  One sample: what the bus delivers when the conversion register is read. The word read
  has its two bytes swapped; an \<^verbatim>\<open>IOError\<close> gives the raw value 0; without a bus (test
  mode) the raw value is \<^verbatim>\<open>16000 + bank_id * 100\<close>.
\<close>

datatype adc_read = Adc_word nat | IO_error | No_bus

definition raw_adc_of :: "nat \<Rightarrow> adc_read \<Rightarrow> int" where
  "raw_adc_of bank_id r =
     (case r of
        Adc_word raw_adc \<Rightarrow>
          push_bit 8 (int raw_adc AND 0xFF) OR (drop_bit 8 (int raw_adc) AND 0xFF)
      | IO_error \<Rightarrow> 0
      | No_bus \<Rightarrow> 16000 + int bank_id * 100)"

text \<open>
  The conversion of a raw value: \<^verbatim>\<open>raw_adc * (6.144 / 32767)\<close>, divided by the divider
  ratio and multiplied by the calibration factor of the bank; a raw value of 0 is the
  reading 0.0. Only \<^verbatim>\<open>IOError\<close> is caught around the read, so a divider ratio of 0 ends the
  call with \<^verbatim>\<open>ZeroDivisionError\<close>.
\<close>

definition sample_voltage :: "settings \<Rightarrow> nat \<Rightarrow> int \<Rightarrow> py_exception + real" where
  "sample_voltage settings bank_id raw_adc =
     (if raw_adc \<noteq> 0 then
        (if VoltageDividerRatio settings = 0 then Inl ZeroDivisionError
         else
           let measured_voltage = real_of_int raw_adc * (6144 / 1000 / 32767);
               actual_voltage = (measured_voltage / VoltageDividerRatio settings)
                                  * Sensor_Calibration settings bank_id
           in Inr actual_voltage)
      else Inr 0)"

text \<open>
  The evaluation of the readings of one attempt: the mean of the readings within 5 percent
  of their average, if there is one.
\<close>

definition average_valid :: "real list \<Rightarrow> real option" where
  "average_valid readings =
     (if readings \<noteq> [] then
        (let average = sum_list readings / real (length readings);
             valid_readings =
               filter (\<lambda>r. \<bar>r - average\<bar> / (if average \<noteq> 0 then average else 1) \<le> 5 / 100)
                      readings
         in if valid_readings \<noteq> [] then Some (sum_list valid_readings / real (length valid_readings))
            else None)
      else None)"

text \<open>
  \<^verbatim>\<open>read_voltage_with_retry\<close>: two attempts of two samples each; \<open>bus_reads attempt sample\<close>
  is what the bus delivers. Of the returned triple only the voltage is modelled, the
  component that \<^verbatim>\<open>main\<close> and \<^verbatim>\<open>balance_battery_voltages\<close> use; \<^verbatim>\<open>None\<close> is the failed read.
\<close>

fun voltage_attempts ::
  "settings \<Rightarrow> (nat \<Rightarrow> nat \<Rightarrow> adc_read) \<Rightarrow> nat \<Rightarrow> nat list \<Rightarrow> py_exception + real option" where
  "voltage_attempts settings bus_reads bank_id [] = Inr None"
| "voltage_attempts settings bus_reads bank_id (attempt # rest) =
     (case collect (map (\<lambda>sample. sample_voltage settings bank_id
                                      (raw_adc_of bank_id (bus_reads attempt sample)))
                        [0, 1]) of
        Inl e \<Rightarrow> Inl e
      | Inr readings \<Rightarrow>
          (case average_valid readings of
             Some v \<Rightarrow> Inr (Some v)
           | None \<Rightarrow> voltage_attempts settings bus_reads bank_id rest))"

definition read_voltage_with_retry ::
  "settings \<Rightarrow> (nat \<Rightarrow> nat \<Rightarrow> adc_read) \<Rightarrow> nat \<Rightarrow> py_exception + real option" where
  "read_voltage_with_retry settings bus_reads bank_id =
     (if bank_id > num_series_banks settings then Inr None
      else voltage_attempts settings bus_reads bank_id [0, 1])"

text \<open>
  The loop of \<^verbatim>\<open>main\<close> that fills \<^verbatim>\<open>battery_voltages\<close>:
  \<^verbatim>\<open>battery_voltages.append(v if v is not None else 0.0)\<close> for the banks 1 to \<^verbatim>\<open>NUM_BANKS\<close>.
\<close>

definition read_battery_voltages ::
  "settings \<Rightarrow> (nat \<Rightarrow> nat \<Rightarrow> nat \<Rightarrow> adc_read) \<Rightarrow> py_exception + real list" where
  "read_battery_voltages settings bus_reads_of_bank =
     collect (map (\<lambda>i. case read_voltage_with_retry settings (bus_reads_of_bank i) i of
                          Inl e \<Rightarrow> Inl e
                        | Inr v \<Rightarrow> Inr (case v of None \<Rightarrow> 0 | Some x \<Rightarrow> x))
                  [1..<num_series_banks settings + 1])"

section \<open>Temperature acquisition, calibration and the per-channel checks of \<^verbatim>\<open>main\<close>\<close>

text \<open>
  Reading the units: for the address at position \<open>i\<close> of \<^verbatim>\<open>modbus_slave_addresses\<close>,
  \<^verbatim>\<open>read_ntc_sensors\<close> is called in the environment \<open>unit_env i\<close>. A returned string adds
  the alert and \<^verbatim>\<open>[valid_min] * sensors_per_battery\<close>; a returned list is appended as it is.
\<close>

fun read_all_units ::
  "settings \<Rightarrow> nat \<Rightarrow> (nat \<Rightarrow> ntc_env) \<Rightarrow> (nat \<times> nat) list \<Rightarrow> alert list \<times> real list
     \<Rightarrow> py_exception + (alert list \<times> real list)" where
  "read_all_units settings sensors_per_battery unit_env [] acc = Inr acc"
| "read_all_units settings sensors_per_battery unit_env ((i, addr) # rest) (alerts, all_raw_temps) =
     (case fst (read_ntc_sensors (unit_env i) sensors_per_battery (scaling_factor settings)
                  (max_retries settings) addr) of
        ErrorMessage temp_result \<Rightarrow>
          read_all_units settings sensors_per_battery unit_env rest
            (alerts @ [Slave_failed addr temp_result],
             all_raw_temps @ replicate sensors_per_battery (valid_min settings))
      | Temperatures temp_result \<Rightarrow>
          read_all_units settings sensors_per_battery unit_env rest
            (alerts, all_raw_temps @ temp_result)
      | Uncaught e \<Rightarrow> Inl e)"

text \<open>
  \<^verbatim>\<open>statistics.median\<close>: the middle of the sorted data, the mean of the two middle values
  for an even count, \<^verbatim>\<open>StatisticsError\<close> for no data.
\<close>

definition py_median :: "real list \<Rightarrow> real option" where
  "py_median xs =
     (let s = sort xs; n = length xs
      in if n = 0 then None
         else if odd n then Some (s ! (n div 2))
         else Some ((s ! (n div 2 - 1) + s ! (n div 2)) / 2))"

text \<open>
  The calibration step of a poll, with the reset that follows it. \<^verbatim>\<open>save_offsets\<close> writes
  a file and catches its own \<^verbatim>\<open>IOError\<close>; it changes no variable.
\<close>

definition calibrate :: "settings \<Rightarrow> nat \<Rightarrow> real list \<Rightarrow> bms_state \<Rightarrow> py_exception + bms_state" where
  "calibrate settings total_channels raw_temps st =
     (let valid_count = length (filter (\<lambda>t. t > valid_min settings) raw_temps);
          reset = (\<lambda>s. if startup_set s \<and> startup_offsets s = None
                         then s\<lparr>startup_set := False\<rparr> else s)
      in if \<not> startup_set st \<and> valid_count = total_channels then
           (case py_median raw_temps of
              None \<Rightarrow> Inl StatisticsError
            | Some m \<Rightarrow>
                Inr (reset (st\<lparr>startup_median := Some m,
                               startup_offsets := Some (map (\<lambda>t. m - t) raw_temps),
                               startup_set := True\<rparr>)))
         else Inr (reset st))"

text \<open>
  One element of the list comprehension that builds \<^verbatim>\<open>calibrated_temps\<close>; an index past the
  end of \<^verbatim>\<open>raw_temps\<close> or of the offsets raises \<^verbatim>\<open>IndexError\<close>.
\<close>

definition calibrated_at :: "settings \<Rightarrow> bms_state \<Rightarrow> real list \<Rightarrow> nat \<Rightarrow> py_exception + real option" where
  "calibrated_at settings st raw_temps i =
     (if length raw_temps \<le> i then Inl IndexError
      else if startup_set st \<and> raw_temps ! i > valid_min settings then
        (case startup_offsets st of
           None \<Rightarrow> Inl TypeError
         | Some offsets \<Rightarrow>
             if length offsets \<le> i then Inl IndexError
             else Inr (Some (raw_temps ! i + offsets ! i)))
      else if raw_temps ! i > valid_min settings then Inr (Some (raw_temps ! i))
      else Inr None)"

definition apply_offsets ::
  "settings \<Rightarrow> nat \<Rightarrow> bms_state \<Rightarrow> real list \<Rightarrow> py_exception + real option list" where
  "apply_offsets settings total_channels st raw_temps =
     collect (map (calibrated_at settings st raw_temps) [0..<total_channels])"


text \<open>
  The per-channel checks. Each appends at most one alert, which names the channel by the
  results of \<^verbatim>\<open>get_battery_and_local_ch\<close> and \<^verbatim>\<open>get_bank_for_channel\<close>;
  \<^verbatim>\<open>check_invalid_reading\<close> also returns whether the reading is invalid.
\<close>

definition check_invalid_reading :: "nat list list \<Rightarrow> real \<Rightarrow> int \<Rightarrow> real \<Rightarrow> bool \<times> alert list" where
  "check_invalid_reading BANK_SENSOR_INDICES raw ch valid_min' =
     (if raw \<le> valid_min' then
        (let bank = get_bank_for_channel BANK_SENSOR_INDICES ch;
             (bat_id, local_ch) = get_battery_and_local_ch ch
         in (True, [Invalid_reading bat_id bank local_ch valid_min']))
      else (False, []))"

definition check_high_temp :: "nat list list \<Rightarrow> real \<Rightarrow> int \<Rightarrow> real \<Rightarrow> alert list" where
  "check_high_temp BANK_SENSOR_INDICES calibrated ch high_threshold' =
     (if calibrated > high_threshold' then
        (let bank = get_bank_for_channel BANK_SENSOR_INDICES ch;
             (bat_id, local_ch) = get_battery_and_local_ch ch
         in [High_temp bat_id bank local_ch calibrated high_threshold'])
      else [])"

definition check_low_temp :: "nat list list \<Rightarrow> real \<Rightarrow> int \<Rightarrow> real \<Rightarrow> alert list" where
  "check_low_temp BANK_SENSOR_INDICES calibrated ch low_threshold' =
     (if calibrated < low_threshold' then
        (let bank = get_bank_for_channel BANK_SENSOR_INDICES ch;
             (bat_id, local_ch) = get_battery_and_local_ch ch
         in [Low_temp bat_id bank local_ch calibrated low_threshold'])
      else [])"

definition check_deviation ::
  "nat list list \<Rightarrow> real \<Rightarrow> real \<Rightarrow> int \<Rightarrow> real \<Rightarrow> real \<Rightarrow> alert list" where
  "check_deviation BANK_SENSOR_INDICES calibrated bank_median ch abs_deviation_threshold'
     deviation_threshold' =
     (let abs_dev = \<bar>calibrated - bank_median\<bar>;
          rel_dev = (if bank_median \<noteq> 0 then abs_dev / \<bar>bank_median\<bar> else 0)
      in if abs_dev > abs_deviation_threshold' \<or> rel_dev > deviation_threshold' then
           (let bank = get_bank_for_channel BANK_SENSOR_INDICES ch;
                (bat_id, local_ch) = get_battery_and_local_ch ch
            in [Deviation bat_id bank local_ch abs_dev rel_dev])
         else [])"

text \<open>
  The body of the loop \<^verbatim>\<open>for ch, raw in enumerate(raw_temps, 1)\<close> of \<^verbatim>\<open>main\<close> for one
  channel: the alerts it appends, or the exception it raises. An invalid reading ends the
  pass (\<^verbatim>\<open>continue\<close>). \<^verbatim>\<open>bank_medians[bank_id - 1]\<close> with \<^verbatim>\<open>bank_id\<close> \<^verbatim>\<open>None\<close> is a
  \<^verbatim>\<open>TypeError\<close>; a bank number is at least 1, so the index is never negative.
\<close>

definition static_checks_channel ::
  "settings \<Rightarrow> nat list list \<Rightarrow> real option list \<Rightarrow> real list \<Rightarrow> int \<Rightarrow> real
     \<Rightarrow> py_exception + alert list" where
  "static_checks_channel settings BANK_SENSOR_INDICES calibrated bank_medians ch raw =
     (case check_invalid_reading BANK_SENSOR_INDICES raw ch (valid_min settings) of
        (True, alerts) \<Rightarrow> Inr alerts
      | (False, alerts) \<Rightarrow>
          if ch < 1 \<or> int (length calibrated) < ch then Inl IndexError
          else
            (case get_bank_for_channel BANK_SENSOR_INDICES ch of
               None \<Rightarrow> Inl TypeError
             | Some bank_id \<Rightarrow>
                 if length bank_medians < bank_id then Inl IndexError
                 else
                   (case calibrated ! nat (ch - 1) of
                      None \<Rightarrow> Inl TypeError
                    | Some calib \<Rightarrow>
                        Inr (alerts
                             @ check_high_temp BANK_SENSOR_INDICES calib ch (high_threshold settings)
                             @ check_low_temp BANK_SENSOR_INDICES calib ch (low_threshold settings)
                             @ check_deviation BANK_SENSOR_INDICES calib
                                 (bank_medians ! (bank_id - 1)) ch
                                 (abs_deviation_threshold settings) (deviation_threshold settings)))))"

fun static_checks ::
  "settings \<Rightarrow> nat list list \<Rightarrow> real option list \<Rightarrow> real list \<Rightarrow> int \<Rightarrow> real list \<Rightarrow> alert list
     \<Rightarrow> py_exception + alert list" where
  "static_checks settings BANK_SENSOR_INDICES calibrated bank_medians ch [] alerts = Inr alerts"
| "static_checks settings BANK_SENSOR_INDICES calibrated bank_medians ch (raw # rest) alerts =
     (case static_checks_channel settings BANK_SENSOR_INDICES calibrated bank_medians ch raw of
        Inl e \<Rightarrow> Inl e
      | Inr new \<Rightarrow>
          static_checks settings BANK_SENSOR_INDICES calibrated bank_medians (ch + 1) rest
            (alerts @ new))"

text \<open>
  \<^verbatim>\<open>compute_bank_medians\<close>, one bank at a time. The \<^verbatim>\<open>try\<close> around the statistics guards
  against non-numeric entries, which a list of floats does not have.
\<close>

record bank_stat =
  stat_median :: real
  stat_min :: real
  stat_max :: real
  stat_invalid :: nat

definition bank_summary :: "real option list \<Rightarrow> nat list \<Rightarrow> bank_stat" where
  "bank_summary calibrated bank_indices =
     (let bank_temps = List.map_filter (\<lambda>i. calibrated ! i) bank_indices;
          invalid_count = length bank_indices - length bank_temps
      in case py_median bank_temps of
           Some med \<Rightarrow>
             \<lparr>stat_median = med, stat_min = py_min bank_temps, stat_max = py_max bank_temps,
              stat_invalid = invalid_count\<rparr>
         | None \<Rightarrow>
             \<lparr>stat_median = 0, stat_min = 0, stat_max = 0, stat_invalid = invalid_count\<rparr>)"

definition bank_stat_of :: "real option list \<Rightarrow> nat list \<Rightarrow> py_exception + bank_stat" where
  "bank_stat_of calibrated bank_indices =
     (if \<exists>i \<in> set bank_indices. length calibrated \<le> i then Inl IndexError
      else Inr (bank_summary calibrated bank_indices))"

definition compute_bank_medians ::
  "nat list list \<Rightarrow> real option list \<Rightarrow> py_exception + bank_stat list" where
  "compute_bank_medians BANK_SENSOR_INDICES calibrated =
     collect (map (bank_stat_of calibrated) BANK_SENSOR_INDICES)"

text \<open>
  The temperature half of a poll cycle of \<^verbatim>\<open>main\<close>, up to the end of the loop of
  per-channel checks.
\<close>

record temperature_poll =
  raw_temps :: "real list"
  poll_calibrated :: "real option list"
  bank_stats :: "bank_stat list"
  poll_alerts :: "alert list"

definition poll_temperatures ::
  "settings \<Rightarrow> (nat \<Rightarrow> ntc_env) \<Rightarrow> bms_state \<Rightarrow> py_exception + (bms_state \<times> temperature_poll)" where
  "poll_temperatures settings unit_env st =
     (let sensors_per_battery = num_series_banks settings * sensors_per_bank settings;
          total_channels = number_of_parallel_batteries settings * sensors_per_battery;
          BANK_SENSOR_INDICES =
            bank_sensor_indices (num_series_banks settings) (sensors_per_bank settings)
              (number_of_parallel_batteries settings)
      in case read_all_units settings sensors_per_battery unit_env
                (zip [0..<length (modbus_slave_addresses settings)] (modbus_slave_addresses settings))
                ([], []) of
           Inl e \<Rightarrow> Inl e
         | Inr (alerts, raw) \<Rightarrow>
             (case calibrate settings total_channels raw st of
                Inl e \<Rightarrow> Inl e
              | Inr st' \<Rightarrow>
                  (case apply_offsets settings total_channels st' raw of
                     Inl e \<Rightarrow> Inl e
                   | Inr calibrated \<Rightarrow>
                       (case compute_bank_medians BANK_SENSOR_INDICES calibrated of
                          Inl e \<Rightarrow> Inl e
                        | Inr stats \<Rightarrow>
                            (case static_checks settings BANK_SENSOR_INDICES calibrated
                                    (map stat_median stats) 1 raw alerts of
                               Inl e \<Rightarrow> Inl e
                             | Inr alerts' \<Rightarrow>
                                 Inr (st', \<lparr>raw_temps = raw, poll_calibrated = calibrated,
                                            bank_stats = stats, poll_alerts = alerts'\<rparr>))))))"

text \<open>
  What the call of \<^verbatim>\<open>read_ntc_sensors\<close> for the unit at position \<open>i\<close> returns in a poll.
\<close>

definition unit_result :: "settings \<Rightarrow> (nat \<Rightarrow> ntc_env) \<Rightarrow> nat \<Rightarrow> ntc_result" where
  "unit_result settings unit_env i =
     fst (read_ntc_sensors (unit_env i)
            (num_series_banks settings * sensors_per_bank settings)
            (scaling_factor settings) (max_retries settings)
            (modbus_slave_addresses settings ! i))"

section \<open>One poll cycle of \<^verbatim>\<open>main\<close>\<close>

text \<open>
  The cycle in the order of the source: the temperature half, the alerts of the checks
  that are not modelled (given by the environment and appended to the alert list), the
  bank voltages, and the balance decision with the update of \<^verbatim>\<open>web_data\<close>.
\<close>

record poll_env =
  unit_envs :: "nat \<Rightarrow> ntc_env"
  later_alerts :: "alert list"
  bus_reads_of :: "nat \<Rightarrow> nat \<Rightarrow> nat \<Rightarrow> adc_read"
  poll_time :: real
  poll_balance_run :: balance_env

definition poll_cycle ::
  "settings \<Rightarrow> poll_env \<Rightarrow> bms_state
     \<Rightarrow> (py_exception \<times> actuation list) + (bms_state \<times> temperature_poll \<times> decision_output)" where
  "poll_cycle settings env st =
     (case poll_temperatures settings (unit_envs env) st of
        Inl e \<Rightarrow> Inl (e, [])
      | Inr (st1, tp) \<Rightarrow>
          (case read_battery_voltages settings (bus_reads_of env) of
             Inl e \<Rightarrow> Inl (e, [])
           | Inr voltages \<Rightarrow>
               (case balance_decision settings
                       \<lparr>battery_voltages = voltages,
                        temps_alerts = poll_alerts tp @ later_alerts env,
                        calibrated_temps = poll_calibrated tp,
                        current_time = poll_time env,
                        balance_run = poll_balance_run env\<rparr> st1 of
                  Inl e \<Rightarrow> Inl e
                | Inr (st2, dout) \<Rightarrow> Inr (st2, tp, dout))))"

text \<open>
  A poll of the small pack: the two samples of bank 1 disagree in both attempts (raw
  values 0x4000 and 0x5000), bank 2 reads the raw value 0x4000 twice, 20.48 V.
\<close>

definition demo_poll_env :: poll_env where
  "demo_poll_env =
     \<lparr>unit_envs = demo_unit_env, later_alerts = [],
      bus_reads_of = (\<lambda>bank attempt sample.
                        if bank = 1 \<and> sample = 1 then Adc_word 0x50 else Adc_word 0x40),
      poll_time = 1000,
      poll_balance_run = \<lparr>initial_high_v = None, initial_low_v = None, loop_reads = [],
                           final_high_read = None, final_low_read = None, finish_time = 1000\<rparr>\<rparr>"

section \<open>Properties of the checksum\<close>

subsection \<open>The checksum on 16-bit words\<close>

text \<open>
  The checksum never leaves 16 bits, so the loop can be replayed on \<^typ>\<open>16 word\<close>,
  where one shift step is injective: the top bit of its result is the bit shifted out.
\<close>

lemma bit15_drop: "\<not> bit (drop_bit 1 (w :: 16 word)) 15"
proof
  assume "bit (drop_bit 1 w) 15"
  then have "bit w 16" by (simp add: bit_drop_bit_eq)
  then have "16 < LENGTH(16)" by (rule bit_imp_le_length)
  then show False by simp
qed

lemma bit15_wshift: "bit (wshift w) 15 = bit w 0"
  unfolding wshift_def using bit15_drop[of w]
  by (simp add: bit_xor_iff)

lemma drop1_eq: 
  fixes x y :: "16 word"
  assumes "bit x 0 = bit y 0" "drop_bit 1 x = drop_bit 1 y" shows "x = y"
proof (rule bit_eqI)
  fix n 
  show "bit x n = bit y n"
  proof (cases n)
    case 0 then show ?thesis using assms by simp
  next
    case (Suc m)
    have "bit (drop_bit 1 x) m = bit (drop_bit 1 y) m" using assms by simp
    then show ?thesis using Suc by (simp add: bit_drop_bit_eq)
  qed
qed

lemma xor_cancel_right: "(a :: 16 word) XOR k = b XOR k \<Longrightarrow> a = b"
proof -
  assume h: "a XOR k = b XOR k"
  have "a = (a XOR k) XOR k" by (simp add: xor.assoc)
  also have "\<dots> = (b XOR k) XOR k" using h by simp
  also have "\<dots> = b" by (simp add: xor.assoc)
  finally show ?thesis .
qed

lemma xor_cancel_left: "(k :: 16 word) XOR a = k XOR b \<Longrightarrow> a = b"
  using xor_cancel_right[of a k b] by (simp add: xor.commute)

lemma wshift_inj: assumes "wshift x = wshift y" shows "x = y"
proof -
  have b: "bit x 0 = bit y 0" using assms bit15_wshift by metis
  have "drop_bit 1 x = drop_bit 1 y"
  proof (cases "bit x 0")
    case True
    then have "drop_bit 1 x XOR 0xA001 = drop_bit 1 y XOR 0xA001"
      using assms b by (simp add: wshift_def)
    then show ?thesis by (rule xor_cancel_right)
  next
    case False
    then show ?thesis using assms b by (simp add: wshift_def)
  qed
  with b show ?thesis by (rule drop1_eq)
qed

lemma wshift_pow_inj: "(wshift ^^ n) x = (wshift ^^ n) y \<Longrightarrow> x = y"
  by (induction n) (auto dest: wshift_inj)

lemma uint_ucast_byte: "uint (ucast (b :: byte) :: 16 word) = uint b"
  by (simp add: unsigned_ucast_eq bintr_uint)

lemma ucast_byte_inj:
  assumes "(ucast (a :: byte) :: 16 word) = ucast b" shows "a = b"
proof -
  have "uint (ucast a :: 16 word) = uint (ucast b :: 16 word)" using assms by simp
  then have "uint a = uint b" by (simp only: uint_ucast_byte)
  then show ?thesis by (simp add: word_uint_eq_iff)
qed

lemma wupdate_inj_state: "wupdate s b = wupdate t b \<Longrightarrow> s = t"
  unfolding wupdate_def by (blast dest: wshift_pow_inj xor_cancel_right)

lemma wupdate_inj_byte: "wupdate s a = wupdate s b \<Longrightarrow> a = b"
  unfolding wupdate_def by (blast dest: wshift_pow_inj xor_cancel_left ucast_byte_inj)

lemma foldl_wupdate_inj: "foldl wupdate s ys = foldl wupdate t ys \<Longrightarrow> s = t"
  by (induction ys arbitrary: s t) (auto dest: wupdate_inj_state)

lemma crc_shift_word: "crc_shift (uint w) = uint (wshift w)"
proof -
  have "odd (uint w) = bit (uint w) 0" by (simp add: bit_0)
  also have "\<dots> = bit w 0" by (simp add: bit_uint_iff)
  finally have o: "(uint w AND 1 \<noteq> 0) = bit w 0"
    by (simp add: and_one_eq mod_2_eq_odd)
  show ?thesis
    unfolding crc_shift_def wshift_def o
    by (simp add: unsigned_xor_eq unsigned_drop_bit_eq bintr_uint)
qed

lemma crc_shift_pow_word: "(crc_shift ^^ n) (uint w) = uint ((wshift ^^ n) w)"
  by (induction n) (simp_all add: crc_shift_word)

lemma crc_update_word: "crc_update (uint w) b = uint (wupdate w b)"
  unfolding crc_update_def wupdate_def
  by (simp add: crc_shift_pow_word[symmetric] unsigned_xor_eq uint_ucast_byte)

lemma foldl_crc_update_word: "foldl crc_update (uint w) data = uint (foldl wupdate w data)"
  by (induction data arbitrary: w) (simp_all add: crc_update_word)

lemma crc16_word: "crc16 data = uint (foldl wupdate 0xFFFF data)"
  using foldl_crc_update_word[of "0xFFFF"] by (simp add: crc16_def)

lemma crc16_range: "0 \<le> crc16 data \<and> crc16 data < 65536"
  using uint_bounded[of "foldl wupdate 0xFFFF data"] by (simp add: crc16_word)

lemma uint_byte_of_int: "0 \<le> k \<Longrightarrow> k < 256 \<Longrightarrow> uint (word_of_int k :: byte) = k"
  by (simp add: uint_word_of_int_eq take_bit_int_eq_self)

lemma to_bytes2_little_val:
  assumes "0 \<le> n" "n < 65536"
  shows "to_bytes2_little n = Some [word_of_int (n mod 256), word_of_int (n div 256)]"
  unfolding to_bytes2_little_def using assms by (simp only: simp_thms if_True)

lemma from_to_bytes2_little:
  assumes "0 \<le> n" "n < 65536"
  shows "map_option from_bytes2_little (to_bytes2_little n) = Some n"
proof -
  have l: "uint (word_of_int (n mod 256) :: byte) = n mod 256"
    by (rule uint_byte_of_int) simp_all
  have "n div 256 < 256" using assms by linarith
  moreover have "0 \<le> n div 256" using assms by simp
  ultimately have h: "uint (word_of_int (n div 256) :: byte) = n div 256"
    by (intro uint_byte_of_int)
  have "from_bytes2_little [word_of_int (n mod 256), word_of_int (n div 256)]
        = n mod 256 + 256 * (n div 256)"
    unfolding from_bytes2_little_def by (simp only: nth_Cons_0 One_nat_def nth_Cons_Suc l h)
  also have "\<dots> = n" by (simp only: mod_mult_div_eq)
  finally show ?thesis by (simp only: to_bytes2_little_val[OF assms] option.map)
qed

lemma to_bytes2_little_inj:
  assumes "0 \<le> m" "m < 65536" "0 \<le> n" "n < 65536"
    and "to_bytes2_little m = to_bytes2_little n"
  shows "m = n"
proof -
  have "Some m = map_option from_bytes2_little (to_bytes2_little m)"
    using assms(1,2) by (simp only: from_to_bytes2_little)
  also have "\<dots> = map_option from_bytes2_little (to_bytes2_little n)"
    by (simp only: assms(5))
  also have "\<dots> = Some n" using assms(3,4) by (simp only: from_to_bytes2_little)
  finally show ?thesis by (simp only: option.inject)
qed

lemma modbus_crc_Some: "\<exists>lo hi. modbus_crc data = Some [lo, hi]"
  unfolding modbus_crc_def using crc16_range[of data] by (auto simp only: to_bytes2_little_val)

lemma modbus_crc_detects:
  assumes "b \<noteq> b'"
  shows "modbus_crc (xs @ b # ys) \<noteq> modbus_crc (xs @ b' # ys)"
proof
  assume e: "modbus_crc (xs @ b # ys) = modbus_crc (xs @ b' # ys)"
  have "crc16 (xs @ b # ys) = crc16 (xs @ b' # ys)"
    using crc16_range[of "xs @ b # ys"] crc16_range[of "xs @ b' # ys"] e
    unfolding modbus_crc_def by (intro to_bytes2_little_inj) simp_all
  then have "uint (foldl wupdate 0xFFFF (xs @ b # ys)) = uint (foldl wupdate 0xFFFF (xs @ b' # ys))"
    by (simp only: crc16_word)
  then have "foldl wupdate 0xFFFF (xs @ b # ys) = foldl wupdate 0xFFFF (xs @ b' # ys)"
    by (simp only: word_uint_eq_iff)
  then have "foldl wupdate (wupdate (foldl wupdate 0xFFFF xs) b) ys
           = foldl wupdate (wupdate (foldl wupdate 0xFFFF xs) b') ys"
    by simp
  then have "wupdate (foldl wupdate 0xFFFF xs) b = wupdate (foldl wupdate 0xFFFF xs) b'"
    by (rule foldl_wupdate_inj)
  then have "b = b'" by (rule wupdate_inj_byte)
  then show False using assms by simp
qed

subsection \<open>Round trip and single-byte error detection\<close>

lemma crc_ok_append_iff:
  assumes "length c = 2"
  shows "crc_ok (data @ c) = (modbus_crc data = Some c)"
  using assms by (simp add: crc_ok_def)

lemma crc_ok_append:
  assumes "modbus_crc data = Some [lo, hi]"
  shows "crc_ok (data @ [lo, hi])"
  using assms by (simp add: crc_ok_append_iff)

lemma crc_ok_payload_changed:
  assumes c: "modbus_crc data = Some [lo, hi]" and i: "i < length data" and b: "b \<noteq> data ! i"
  shows "\<not> crc_ok ((data @ [lo, hi])[i := b])"
proof
  assume ok: "crc_ok ((data @ [lo, hi])[i := b])"
  have u: "(data @ [lo, hi])[i := b] = data[i := b] @ [lo, hi]"
    using i by (simp add: list_update_append)
  have "modbus_crc (data[i := b]) = Some [lo, hi]"
    using ok unfolding u by (simp add: crc_ok_append_iff)
  then have "modbus_crc (take i data @ b # drop (Suc i) data)
           = modbus_crc (take i data @ data ! i # drop (Suc i) data)"
    using c i by (simp add: upd_conv_take_nth_drop id_take_nth_drop[symmetric])
  then show False using modbus_crc_detects[OF b] by blast
qed

lemma crc_ok_checksum_changed:
  assumes c: "modbus_crc data = Some [lo, hi]" and i: "length data \<le> i"
    and i2: "i < length data + 2" and b: "b \<noteq> (data @ [lo, hi]) ! i"
  shows "\<not> crc_ok ((data @ [lo, hi])[i := b])"
proof
  assume ok: "crc_ok ((data @ [lo, hi])[i := b])"
  define c' where "c' = [lo, hi][i - length data := b]"
  have l: "length c' = 2" unfolding c'_def by (simp only: length_list_update) simp
  have u: "(data @ [lo, hi])[i := b] = data @ c'"
    using i by (simp add: list_update_append c'_def)
  have "modbus_crc data = Some c'"
    using ok l unfolding u by (simp only: crc_ok_append_iff)
  then have e: "c' = [lo, hi]" using c by simp
  have "c' ! (i - length data) = b"
    unfolding c'_def using i i2 by (intro nth_list_update_eq) simp
  moreover have "(data @ [lo, hi]) ! i = [lo, hi] ! (i - length data)"
    using i by (simp add: nth_append)
  ultimately show False using b e by simp
qed

text \<open>
  Claim C8. For every byte sequence \<open>data\<close>, \<^verbatim>\<open>modbus_crc\<close> returns two bytes (it never
  raises), the frame \<open>data + crc\<close> passes the checksum test that \<^verbatim>\<open>read_ntc_sensors\<close>
  applies to a response, and replacing any one byte of that frame, in the payload or in
  the appended checksum, by any other value makes the test fail.
\<close>

theorem modbus_crc_round_trip_and_detection:
  "\<exists>frame. frame_with_crc data = Some frame \<and> length frame = length data + 2 \<and>
     crc_ok frame \<and>
     (\<forall>i < length frame. \<forall>b. b \<noteq> frame ! i \<longrightarrow> \<not> crc_ok (frame[i := b]))"
proof -
  obtain lo hi where c: "modbus_crc data = Some [lo, hi]"
    using modbus_crc_Some by blast
  have f: "frame_with_crc data = Some (data @ [lo, hi])"
    by (simp add: frame_with_crc_def c)
  have d: "\<not> crc_ok ((data @ [lo, hi])[i := b])"
    if "i < length (data @ [lo, hi])" "b \<noteq> (data @ [lo, hi]) ! i" for i b
  proof (cases "i < length data")
    case True
    with that c show ?thesis by (simp add: crc_ok_payload_changed nth_append)
  next
    case False
    with that c show ?thesis by (intro crc_ok_checksum_changed) simp_all
  qed
  show ?thesis
    using f crc_ok_append[OF c] d by (intro exI[of _ "data @ [lo, hi]"]) simp
qed

text \<open>
  The query of \<^verbatim>\<open>read_ntc_sensors\<close> for unit 1 and 8 registers: its frame is accepted, and
  the frame with its first byte changed from 1 to 2 is rejected.
\<close>

theorem modbus_crc_round_trip_and_detection_witness:
  "frame_with_crc [1, 3, 0, 0, 0, 8] = Some [1, 3, 0, 0, 0, 8, 0x44, 0x0C] \<and>
   crc_ok [1, 3, 0, 0, 0, 8, 0x44, 0x0C] \<and>
   \<not> crc_ok [2, 3, 0, 0, 0, 8, 0x44, 0x0C]"
proof -
  have e: "frame_with_crc [1, 3, 0, 0, 0, 8] = Some [1, 3, 0, 0, 0, 8, 0x44, 0x0C]"
    by code_simp
  from modbus_crc_round_trip_and_detection [of "[1, 3, 0, 0, 0, 8]"]
  have ok: "crc_ok [1, 3, 0, 0, 0, 8, 0x44, 0x0C]"
    and det: "\<forall>i<8. \<forall>b. b \<noteq> [1, 3, 0, 0, 0, 8, 0x44, 0x0C] ! i \<longrightarrow>
                \<not> crc_ok ([1, 3, 0, 0, 0, 8, 0x44, 0x0C][i := b])"
    unfolding e by simp_all
  from det [rule_format, of 0 2] have "\<not> crc_ok [2, 3, 0, 0, 0, 8, 0x44, 0x0C]" by simp
  with e ok show ?thesis by simp
qed

section \<open>Properties of the topology resolver\<close>

lemma get_bank_loop_None:
  "get_bank_loop bsi k ch = None \<longleftrightarrow> (\<forall>indices \<in> set bsi. ch - 1 \<notin> int ` set indices)"
  by (induction bsi arbitrary: k) auto

lemma bank_sensor_indices_bound:
  assumes "indices \<in> set (bank_sensor_indices nb spb np)" and "i \<in> set indices"
  shows "i < np * (nb * spb)"
proof -
  from assms obtain bank_id bat where b: "bank_id < nb" "bat < np"
    and i: "i < bat * (nb * spb) + bank_id * spb + spb"
    by (auto simp: bank_sensor_indices_def)
  have "bank_id * spb + spb = Suc bank_id * spb" by simp
  also have "\<dots> \<le> nb * spb" using b(1) by (intro mult_le_mono1) simp
  finally have "i < bat * (nb * spb) + nb * spb" using i by linarith
  also have "\<dots> = Suc bat * (nb * spb)" by simp
  also have "\<dots> \<le> np * (nb * spb)" using b(2) by (intro mult_le_mono1) simp
  finally show ?thesis .
qed

text \<open>
  \<^verbatim>\<open>get_bank_for_channel\<close> answers \<^verbatim>\<open>None\<close> outside \<open>1..total_channels\<close>.
\<close>

lemma get_bank_for_channel_out_of_range:
  assumes "ch < 1 \<or> ch > int (np * (nb * spb))"
  shows "get_bank_for_channel (bank_sensor_indices nb spb np) ch = None"
proof -
  have "ch - 1 \<notin> int ` set indices"
    if "indices \<in> set (bank_sensor_indices nb spb np)" for indices
  proof
    assume "ch - 1 \<in> int ` set indices"
    then obtain i where i: "i \<in> set indices" "ch - 1 = int i" by auto
    from bank_sensor_indices_bound[OF that i(1)] i(2) assms show False by linarith
  qed
  then show ?thesis by (simp add: get_bank_for_channel_def get_bank_loop_None)
qed

text \<open>
  Claim C5, at the configuration of the specification's example (3 banks of 8 sensors,
  2 parallel batteries, 48 channels): for the channels 0 and 49, both out of range,
  \<^verbatim>\<open>get_bank_for_channel\<close> returns \<^verbatim>\<open>None\<close>, while \<^verbatim>\<open>get_battery_and_local_ch\<close> returns
  battery 0, local channel 24 and battery 3, local channel 1.
\<close>

theorem get_battery_and_local_ch_out_of_range:
  "get_bank_for_channel (bank_sensor_indices 3 8 2) 0 = None \<and>
   get_bank_for_channel (bank_sensor_indices 3 8 2) 49 = None \<and>
   get_battery_and_local_ch 0 = (0, 24) \<and>
   get_battery_and_local_ch 49 = (3, 1)"
proof -
  have "get_bank_for_channel (bank_sensor_indices 3 8 2) 0 = None"
    by (rule get_bank_for_channel_out_of_range) simp
  moreover have "get_bank_for_channel (bank_sensor_indices 3 8 2) 49 = None"
    by (rule get_bank_for_channel_out_of_range) simp
  ultimately show ?thesis by (simp add: get_battery_and_local_ch_def)
qed

text \<open>
  With one parallel battery of fewer than 24 sensors the literal 24 is not visible on the
  valid channels: both decompositions give battery 1 and the channel itself.
\<close>

lemma get_battery_and_local_ch_single_small_battery:
  assumes "nb * spb < 24" and "1 \<le> ch" and "ch \<le> int (nb * spb)"
  shows "get_battery_and_local_ch ch = configured_battery_and_local nb spb ch"
proof -
  define w where "w = int (nb * spb)"
  have "0 \<le> ch - 1" "ch - 1 < w" "w < 24" using assms unfolding w_def by linarith+
  then have "(ch - 1) div 24 = 0" "(ch - 1) mod 24 = ch - 1"
    "(ch - 1) div w = 0" "(ch - 1) mod w = ch - 1"
    by simp_all
  then show ?thesis
    by (simp add: get_battery_and_local_ch_def configured_battery_and_local_def
        flip: w_def del: of_nat_mult)
qed



section \<open>Properties of \<^verbatim>\<open>read_ntc_sensors\<close>\<close>

text \<open>
  When every exchange from attempt \<open>k\<close> on ends in a socket error and the probe finds the
  network up, the loop gives up at the last attempt, after one exchange per attempt.
\<close>

lemma ntc_attempts_all_socket_errors:
  assumes "\<forall>k. exchange_of env k = SocketError" and "\<forall>k. network_up env k"
    and "k < m"
  shows "ntc_attempts env slave_addr num_channels scaling m [k..<m] nrc =
           (ErrorMessage (''Error: Failed after '' @ str_of_nat m @ '' attempts for slave ''
                            @ str_of_nat slave_addr), m - k)"
  using assms(3)
proof (induction "m - k" arbitrary: k nrc)
  case 0
  then show ?case by simp
next
  case (Suc d)
  have l: "[k..<m] = k # [Suc k..<m]" using Suc.prems by (simp add: upt_conv_Cons)
  show ?case
  proof (cases "Suc k < m")
    case True
    then have c: "int k < int m - 1" by linarith
    have "d = m - Suc k" using Suc.hyps(2) by simp
    from Suc.hyps(1)[OF this True] have
      "ntc_attempts env slave_addr num_channels scaling m [Suc k..<m] nrc =
         (ErrorMessage (''Error: Failed after '' @ str_of_nat m @ '' attempts for slave ''
                          @ str_of_nat slave_addr), m - Suc k)" .
    then show ?thesis
      using assms(1,2) c True unfolding l
      by (simp add: retry_handler_def Suc_diff_Suc del: str_of_nat.simps)
  next
    case False
    then have c: "\<not> int k < int m - 1" and e: "m - k = 1" using Suc.prems by linarith+
    show ?thesis
      using assms(1,2) c e unfolding l
      by (simp add: retry_handler_def del: str_of_nat.simps)
  qed
qed



section \<open>Properties of the balance controller\<close>

lemma trend_loop_lengths:
  "trend_loop reads v (ht, lt) = (v', (ht', lt')) \<Longrightarrow>
     length ht' = length ht + length reads \<and> length lt' = length lt + length reads"
proof (induction reads arbitrary: v ht lt)
  case Nil
  then show ?case by simp
next
  case (Cons r reads)
  obtain nh nl where r: "r = (nh, nl)" by (cases r)
  obtain vh vl where v: "v = (vh, vl)" by (cases v)
  from Cons.prems Cons.IH show ?case
    unfolding r v by (fastforce simp: Let_def)
qed

text \<open>
  With at least one read inside the timed loop and both initial reads present, the run
  is verified exactly when the source fell, the destination rose, and both changes reach
  \<open>min_delta\<close>; otherwise it is failed: the latch is set and the alert is appended.
\<close>

lemma balance_verification_with_samples:
  assumes "initial_high_v env = Some ih" and "initial_low_v env = Some il" and "il \<noteq> 0"
    and "loop_reads env \<noteq> []"
    and "final_high_read env = Some fh" and "final_low_read env = Some fl"
    and ok_def: "ok = (fh - ih < 0 \<and> fl - il > 0 \<and> \<bar>fh - ih\<bar> \<ge> min_voltage_delta settings
                 \<and> fl - il \<ge> min_voltage_delta settings)"
  shows "\<exists>r. balance_battery_voltages st settings env high low [] is_heating = Inr r \<and>
           (logged r = Balancing_verified) = ok \<and>
           (logged r = Balancing_failed_logged) = (\<not> ok) \<and>
           balancer_failed (state_after r) = (balancer_failed st \<or> \<not> ok) \<and>
           temps_alerts_after r = (if ok then [] else [Balancing_failed high low (fh - ih) (fl - il)])"
proof -
  obtain v ht lt where t: "trend_loop (loop_reads env) (ih, il) ([ih], [il]) = (v, (ht, lt))"
    by (metis prod.exhaust)
  from trend_loop_lengths[OF t] assms(4) have "2 \<le> length ht" "2 \<le> length lt"
    by (cases "loop_reads env"; simp)+
  then have l: "3 \<le> Suc (length ht)" "3 \<le> Suc (length lt)" by simp_all
  obtain vh vl where v: "v = (vh, vl)" by (cases v)
  show ?thesis
    using assms(1,2,3,5,6) l t
    by (auto simp: balance_battery_voltages_def Let_def ok_def v)
qed

text \<open>
  Claim C1. A run whose timed loop made no read has two readings per bank, the initial
  and the final one. With source and destination unchanged at 20.50 V and 19.00 V,
  \<^verbatim>\<open>balance_battery_voltages\<close> logs that the readings are insufficient: it leaves the latch
  unset and appends no alert. On the same two readings the balancer test of
  \<^verbatim>\<open>startup_self_test\<close> sets the latch.
\<close>

theorem balance_unverified_with_two_readings:
  "balance_battery_voltages demo_state demo_settings
     \<lparr>initial_high_v = Some (41 / 2), initial_low_v = Some 19, loop_reads = [],
      final_high_read = Some (41 / 2), final_low_read = Some 19, finish_time = 5\<rparr>
     1 2 [] False =
   Inr \<lparr>state_after = demo_state\<lparr>last_balance_time := 5\<rparr>, temps_alerts_after = [],
        actuations = [Set_relay_connection 1 2, Control_dcdc_converter True,
                      Control_dcdc_converter False, Set_relay_connection 0 0],
        logged = Insufficient_readings\<rparr> \<and>
   \<not> balancer_failed (demo_state\<lparr>last_balance_time := 5\<rparr>) \<and>
   startup_balance_analysis (min_voltage_delta demo_settings) 2 (41 / 2) (41 / 2) 19 19"
  by (simp add: balance_battery_voltages_def demo_state_def demo_settings_def
      startup_balance_analysis_def)

subsection \<open>The temperature-alert guard\<close>

lemma check_for_issues_temps_alerts:
  "alerts \<noteq> [] \<Longrightarrow> fst (check_for_issues st settings voltages alerts)"
  by (simp add: check_for_issues_def)

text \<open>
  Claim C3. When the list of temperature alerts is not empty, \<^verbatim>\<open>balance_battery_voltages\<close>
  returns at once, for every pair of banks and in either mode: no call to
  \<^verbatim>\<open>set_relay_connection\<close> or \<^verbatim>\<open>control_dcdc_converter\<close> is made and the state is the one it
  was called in. So the balance decision of a poll cycle makes no such call either,
  whatever the voltages are and whether or not a manual trigger has set
  \<^verbatim>\<open>balancing_active\<close>, and it leaves the latch and the time of the last balance as
  they were.
\<close>

theorem temperature_alert_guard:
  assumes "alerts \<noteq> []"
  shows "balance_battery_voltages st settings env high low alerts is_heating =
           Inr \<lparr>state_after = st, temps_alerts_after = alerts, actuations = [],
                logged = Skipping_temperature_anomalies\<rparr> \<and>
         (temps_alerts inp = alerts \<longrightarrow>
            (case balance_decision settings inp st of
               Inl (e, acts) \<Rightarrow> acts = []
             | Inr (st', out) \<Rightarrow>
                 relay_actuations out = [] \<and> temps_alerts_out out = alerts \<and>
                 balance_logged out \<in> {None, Some Skipping_temperature_anomalies} \<and>
                 balancer_failed st' = balancer_failed st \<and>
                 last_balance_time st' = last_balance_time st))"
proof
  show b: "balance_battery_voltages st settings env high low alerts is_heating =
           Inr \<lparr>state_after = st, temps_alerts_after = alerts, actuations = [],
                logged = Skipping_temperature_anomalies\<rparr>" for env high low is_heating
    using assms by (simp add: balance_battery_voltages_def)
  show "temps_alerts inp = alerts \<longrightarrow>
            (case balance_decision settings inp st of
               Inl (e, acts) \<Rightarrow> acts = []
             | Inr (st', out) \<Rightarrow>
                 relay_actuations out = [] \<and> temps_alerts_out out = alerts \<and>
                 balance_logged out \<in> {None, Some Skipping_temperature_anomalies} \<and>
                 balancer_failed st' = balancer_failed st \<and>
                 last_balance_time st' = last_balance_time st)"
  proof
    assume a: "temps_alerts inp = alerts"
    show "case balance_decision settings inp st of
               Inl (e, acts) \<Rightarrow> acts = []
             | Inr (st', out) \<Rightarrow>
                 relay_actuations out = [] \<and> temps_alerts_out out = alerts \<and>
                 balance_logged out \<in> {None, Some Skipping_temperature_anomalies} \<and>
                 balancer_failed st' = balancer_failed st \<and>
                 last_balance_time st' = last_balance_time st"
      unfolding balance_decision_def
      by (simp add: a b Let_def publish_def split: prod.splits)
  qed
qed

text \<open>
  Banks at 21.0 V, 19.0 V and 20.0 V, a pending manual trigger, and one temperature alert.
\<close>

theorem temperature_alert_guard_witness:
  "balance_decision demo_settings
     \<lparr>battery_voltages = [21, 19, 20], temps_alerts = [Other_alert ''Cabinet over temp''],
      calibrated_temps = [], current_time = 1000,
      balance_run = \<lparr>initial_high_v = Some 21, initial_low_v = Some 19, loop_reads = [],
                     final_high_read = Some 21, final_low_read = Some 19, finish_time = 1005\<rparr>\<rparr>
     (demo_state\<lparr>balancing_active := True\<rparr>) =
   Inr (demo_state\<lparr>web_voltages := [21, 19, 20], web_alerts := [Other_alert ''Cabinet over temp'']\<rparr>,
        \<lparr>alert_needed = True, all_alerts = [Other_alert ''Cabinet over temp''],
         relay_actuations = [], balance_logged = Some Skipping_temperature_anomalies,
         temps_alerts_out = [Other_alert ''Cabinet over temp'']\<rparr>)"
proof -
  have "[Other_alert ''Cabinet over temp''] \<noteq> []" by simp
  from temperature_alert_guard [OF this, THEN conjunct1] show ?thesis
    by (simp add: balance_decision_def check_for_issues_def publish_def
        demo_settings_def demo_state_def)
qed

subsection \<open>The balancer-failure latch\<close>










section \<open>Properties of the calibration\<close>

lemma collect_map_Inr: "collect (map (\<lambda>i. Inr (f i)) xs) = Inr (map f xs)"
  by (induction xs) simp_all

lemma collect_map_cong:
  assumes "\<And>i. i \<in> set xs \<Longrightarrow> g i = Inr (f i)"
  shows "collect (map g xs) = Inr (map f xs)"
proof -
  have "map g xs = map (\<lambda>i. Inr (f i)) xs" using assms by simp
  then show ?thesis by (simp only: collect_map_Inr)
qed


lemma calibrate_not_all_valid:
  assumes "\<not> startup_set st" and "length raw = total_channels" and "\<exists>t \<in> set raw. t \<le> valid_min settings"
  shows "calibrate settings total_channels raw st = Inr st"
proof -
  from assms(3) obtain t where "t \<in> set raw" "\<not> t > valid_min settings" by fastforce
  then have "length (filter (\<lambda>t. t > valid_min settings) raw) < length raw"
    by (rule length_filter_less)
  then show ?thesis using assms(1,2) by (simp add: calibrate_def)
qed


lemma calibrate_once:
  assumes "startup_set st" and "startup_offsets st \<noteq> None"
  shows "calibrate settings total_channels raw st = Inr st"
  using assms by (simp add: calibrate_def)







section \<open>Properties of a poll with a failed unit\<close>

subsection \<open>Every valid channel has a bank\<close>

lemma collect_map_ex:
  assumes "\<forall>x \<in> set xs. \<exists>v. g x = Inr v \<and> P x v"
  shows "\<exists>vs. collect (map g xs) = Inr vs \<and> length vs = length xs \<and>
           (\<forall>n < length xs. P (xs ! n) (vs ! n))"
  using assms
proof (induction xs)
  case Nil
  then show ?case by simp
next
  case (Cons x xs)
  from Cons.prems obtain v where v: "g x = Inr v" "P x v" by auto
  from Cons.IH Cons.prems obtain vs where vs: "collect (map g xs) = Inr vs"
    "length vs = length xs" "\<forall>n < length xs. P (xs ! n) (vs ! n)" by auto
  have "\<forall>n < length (x # xs). P ((x # xs) ! n) ((v # vs) ! n)"
    using v(2) vs(3) by (auto simp: nth_Cons split: nat.splits)
  then show ?case using v(1) vs(1,2) by (intro exI[of _ "v # vs"]) simp
qed

lemma get_bank_loop_range:
  "get_bank_loop bsi k ch = Some b \<Longrightarrow> k \<le> b \<and> b < k + length bsi"
  by (induction bsi arbitrary: k) (fastforce split: if_splits)+

lemma bank_sensor_indices_length: "length (bank_sensor_indices nb spb np) = nb"
  by (simp add: bank_sensor_indices_def)

lemma bank_sensor_indices_nth:
  "b < nb \<Longrightarrow> bank_sensor_indices nb spb np ! b =
     concat (map (\<lambda>bat. [bat * (nb * spb) + b * spb ..< bat * (nb * spb) + b * spb + spb]) [0..<np])"
  by (simp add: bank_sensor_indices_def)

lemma bank_sensor_indices_cover:
  assumes "i < np * (nb * spb)"
  shows "\<exists>b < nb. i \<in> set (bank_sensor_indices nb spb np ! b)"
proof -
  let ?w = "nb * spb"
  have w: "0 < ?w" using assms by (cases "?w = 0") simp_all
  then have spb: "0 < spb" by simp
  let ?bat = "i div ?w" and ?r = "i mod ?w"
  let ?b = "?r div spb"
  have bat: "?bat < np" using assms w by (simp add: less_mult_imp_div_less mult.commute)
  have r: "?r < nb * spb" using w by simp
  then have b: "?b < nb" using spb by (simp add: less_mult_imp_div_less)
  have i: "i = ?bat * ?w + ?r" by (simp only: div_mult_mod_eq)
  have r2: "?r = ?b * spb + ?r mod spb" by (simp only: div_mult_mod_eq)
  have lo: "?bat * ?w + ?b * spb \<le> i" using i r2 by linarith
  have "?r mod spb < spb" using spb by simp
  then have hi: "i < ?bat * ?w + ?b * spb + spb" using i r2 by linarith
  have "i \<in> set (bank_sensor_indices nb spb np ! ?b)"
    unfolding bank_sensor_indices_nth[OF b] using bat lo hi by auto
  with b show ?thesis by blast
qed

lemma get_bank_for_channel_valid:
  assumes "i < np * (nb * spb)"
  shows "\<exists>b. get_bank_for_channel (bank_sensor_indices nb spb np) (int i + 1) = Some b \<and>
           1 \<le> b \<and> b \<le> nb"
proof -
  let ?bsi = "bank_sensor_indices nb spb np"
  from bank_sensor_indices_cover[OF assms] obtain b where b: "b < nb" "i \<in> set (?bsi ! b)"
    by blast
  then have "?bsi ! b \<in> set ?bsi" by (simp add: bank_sensor_indices_length)
  moreover have "int i + 1 - 1 \<in> int ` set (?bsi ! b)" using b(2) by simp
  ultimately have "get_bank_loop ?bsi 1 (int i + 1) \<noteq> None"
    unfolding get_bank_loop_None by blast
  then obtain c where c: "get_bank_loop ?bsi 1 (int i + 1) = Some c" by blast
  from get_bank_loop_range[OF c] have "1 \<le> c" "c \<le> nb"
    by (simp_all add: bank_sensor_indices_length)
  with c show ?thesis by (simp add: get_bank_for_channel_def)
qed

subsection \<open>The stages of the temperature poll\<close>

lemma read_all_units_aligned:
  fixes settings :: settings and w :: nat and unit_env :: "nat \<Rightarrow> ntc_env"
  defines "R \<equiv> \<lambda>p. fst (read_ntc_sensors (unit_env (fst p)) w (scaling_factor settings)
                           (max_retries settings) (snd p))"
  assumes "\<forall>p \<in> set ps. (\<exists>m. R p = ErrorMessage m) \<or> (\<exists>ts. R p = Temperatures ts \<and> length ts = w)"
  shows "\<exists>al' raw'. read_all_units settings w unit_env ps (al, raw) = Inr (al @ al', raw @ raw') \<and>
           length raw' = length ps * w \<and>
           (\<forall>n < length ps. \<forall>m. R (ps ! n) = ErrorMessage m \<longrightarrow>
              Slave_failed (snd (ps ! n)) m \<in> set al' \<and>
              (\<forall>j < w. raw' ! (n * w + j) = valid_min settings))"
  using assms(2)
proof (induction ps arbitrary: al raw)
  case Nil
  then show ?case by simp
next
  case (Cons p ps)
  obtain i addr where p: "p = (i, addr)" by (cases p)
  have rest: "\<forall>p \<in> set ps. (\<exists>m. R p = ErrorMessage m) \<or> (\<exists>ts. R p = Temperatures ts \<and> length ts = w)"
    using Cons.prems by simp
  from Cons.prems have "(\<exists>m. R p = ErrorMessage m) \<or> (\<exists>ts. R p = Temperatures ts \<and> length ts = w)"
    by simp
  then show ?case
  proof
    assume "\<exists>m. R p = ErrorMessage m"
    then obtain m0 where m0: "R p = ErrorMessage m0" by blast
    let ?blk = "replicate w (valid_min settings)"
    from Cons.IH[OF rest, of "al @ [Slave_failed addr m0]" "raw @ ?blk"]
    obtain al2 raw2 where
      r: "read_all_units settings w unit_env ps (al @ [Slave_failed addr m0], raw @ ?blk)
            = Inr ((al @ [Slave_failed addr m0]) @ al2, (raw @ ?blk) @ raw2)"
      and l: "length raw2 = length ps * w"
      and e: "\<forall>n < length ps. \<forall>m. R (ps ! n) = ErrorMessage m \<longrightarrow>
              Slave_failed (snd (ps ! n)) m \<in> set al2 \<and>
              (\<forall>j < w. raw2 ! (n * w + j) = valid_min settings)"
      by blast
    have s: "read_all_units settings w unit_env (p # ps) (al, raw)
            = Inr (al @ (Slave_failed addr m0 # al2), raw @ (?blk @ raw2))"
      using m0 r unfolding p R_def by simp
    have "\<forall>n < length (p # ps). \<forall>m. R ((p # ps) ! n) = ErrorMessage m \<longrightarrow>
              Slave_failed (snd ((p # ps) ! n)) m \<in> set (Slave_failed addr m0 # al2) \<and>
              (\<forall>j < w. (?blk @ raw2) ! (n * w + j) = valid_min settings)"
    proof (intro allI impI)
      fix n m assume n: "n < length (p # ps)" and m: "R ((p # ps) ! n) = ErrorMessage m"
      show "Slave_failed (snd ((p # ps) ! n)) m \<in> set (Slave_failed addr m0 # al2) \<and>
              (\<forall>j < w. (?blk @ raw2) ! (n * w + j) = valid_min settings)"
      proof (cases n)
        case 0
        with m m0 p show ?thesis by (simp add: nth_append)
      next
        case (Suc n')
        with n m e have a: "Slave_failed (snd (ps ! n')) m \<in> set al2"
          and b: "\<forall>j < w. raw2 ! (n' * w + j) = valid_min settings" by auto
        have "(?blk @ raw2) ! (Suc n' * w + j) = raw2 ! (n' * w + j)" for j
          by (simp add: nth_append)
        with a b Suc show ?thesis by simp
      qed
    qed
    with s l show ?thesis by (intro exI[of _ "Slave_failed addr m0 # al2"] exI[of _ "?blk @ raw2"]) simp
  next
    assume "\<exists>ts. R p = Temperatures ts \<and> length ts = w"
    then obtain ts where ts: "R p = Temperatures ts" "length ts = w" by blast
    from Cons.IH[OF rest, of al "raw @ ts"]
    obtain al2 raw2 where
      r: "read_all_units settings w unit_env ps (al, raw @ ts) = Inr (al @ al2, (raw @ ts) @ raw2)"
      and l: "length raw2 = length ps * w"
      and e: "\<forall>n < length ps. \<forall>m. R (ps ! n) = ErrorMessage m \<longrightarrow>
              Slave_failed (snd (ps ! n)) m \<in> set al2 \<and>
              (\<forall>j < w. raw2 ! (n * w + j) = valid_min settings)"
      by blast
    have s: "read_all_units settings w unit_env (p # ps) (al, raw) = Inr (al @ al2, raw @ (ts @ raw2))"
      using ts r unfolding p R_def by simp
    have "\<forall>n < length (p # ps). \<forall>m. R ((p # ps) ! n) = ErrorMessage m \<longrightarrow>
              Slave_failed (snd ((p # ps) ! n)) m \<in> set al2 \<and>
              (\<forall>j < w. (ts @ raw2) ! (n * w + j) = valid_min settings)"
    proof (intro allI impI)
      fix n m assume n: "n < length (p # ps)" and m: "R ((p # ps) ! n) = ErrorMessage m"
      show "Slave_failed (snd ((p # ps) ! n)) m \<in> set al2 \<and>
              (\<forall>j < w. (ts @ raw2) ! (n * w + j) = valid_min settings)"
      proof (cases n)
        case 0
        with m ts show ?thesis by simp
      next
        case (Suc n')
        with n m e have a: "Slave_failed (snd (ps ! n')) m \<in> set al2"
          and b: "\<forall>j < w. raw2 ! (n' * w + j) = valid_min settings" by auto
        have "(ts @ raw2) ! (Suc n' * w + j) = raw2 ! (n' * w + j)" for j
          using ts(2) by (simp add: nth_append)
        with a b Suc show ?thesis by simp
      qed
    qed
    with s l ts(2) show ?thesis by (intro exI[of _ al2] exI[of _ "ts @ raw2"]) simp
  qed
qed

lemma apply_offsets_total:
  assumes "length raw = n"
    and "startup_set st \<longrightarrow> (\<exists>offs. startup_offsets st = Some offs \<and> n \<le> length offs)"
  shows "\<exists>cal. apply_offsets settings n st raw = Inr cal \<and> length cal = n \<and>
           (\<forall>i < n. (cal ! i = None) = (raw ! i \<le> valid_min settings))"
proof -
  have "\<forall>i \<in> set [0..<n]. \<exists>v. calibrated_at settings st raw i = Inr v \<and>
          ((v = None) = (raw ! i \<le> valid_min settings))"
    using assms by (auto simp: calibrated_at_def)
  from collect_map_ex[OF this] show ?thesis
    unfolding apply_offsets_def by auto
qed

lemma compute_bank_medians_total:
  assumes "length cal = np * (nb * spb)"
  shows "compute_bank_medians (bank_sensor_indices nb spb np) cal =
           Inr (map (bank_summary cal) (bank_sensor_indices nb spb np))"
proof -
  have "bank_stat_of cal idx = Inr (bank_summary cal idx)"
    if "idx \<in> set (bank_sensor_indices nb spb np)" for idx
  proof -
    have "\<forall>i \<in> set idx. \<not> length cal \<le> i"
      using bank_sensor_indices_bound[OF that] assms by (simp add: not_le)
    then show ?thesis by (simp add: bank_stat_of_def)
  qed
  then show ?thesis unfolding compute_bank_medians_def by (rule collect_map_cong)
qed

lemma length_map_filter_None:
  "length (List.map_filter f xs) + length (filter (\<lambda>x. f x = None) xs) = length xs"
  by (induction xs) (auto simp: List.map_filter_simps split: option.splits)

lemma stat_invalid_bank_summary:
  "stat_invalid (bank_summary cal idx) = length (filter (\<lambda>i. cal ! i = None) idx)"
proof -
  have "length idx - length (List.map_filter (\<lambda>i. cal ! i) idx)
          = length (filter (\<lambda>i. cal ! i = None) idx)"
    using length_map_filter_None[of "\<lambda>i. cal ! i" idx] by linarith
  then show ?thesis by (simp add: bank_summary_def Let_def split: option.splits)
qed

lemma length_filter_concat_ge:
  "k < length xss \<Longrightarrow> length (filter P (xss ! k)) \<le> length (filter P (concat xss))"
proof (induction xss arbitrary: k)
  case Nil
  then show ?case by simp
next
  case (Cons xs xss)
  then show ?case by (cases k) (simp_all add: trans_le_add2)
qed

lemma bank_invalid_lower_bound:
  assumes "b < nb" and "k < np"
    and "\<forall>j < nb * spb. cal ! (k * (nb * spb) + j) = None"
  shows "spb \<le> stat_invalid (bank_summary cal (bank_sensor_indices nb spb np ! b))"
proof -
  let ?blk = "\<lambda>bat. [bat * (nb * spb) + b * spb ..< bat * (nb * spb) + b * spb + spb]"
  let ?P = "\<lambda>i. cal ! i = None"
  have "Suc b * spb \<le> nb * spb" using assms(1) by (intro mult_le_mono1) simp
  then have in_unit: "b * spb + j < nb * spb" if "j < spb" for j using that by simp
  have "?P i" if "i \<in> set (?blk k)" for i
  proof -
    define j where "j = i - (k * (nb * spb) + b * spb)"
    from that have "k * (nb * spb) + b * spb \<le> i" "i < k * (nb * spb) + b * spb + spb"
      by simp_all
    then have j: "j < spb" "i = k * (nb * spb) + (b * spb + j)"
      unfolding j_def by linarith+
    from assms(3) in_unit[OF j(1)] have "cal ! (k * (nb * spb) + (b * spb + j)) = None"
      by blast
    then show ?thesis by (simp only: j(2))
  qed
  then have "\<forall>i \<in> set (?blk k). ?P i" by blast
  then have "filter ?P (?blk k) = ?blk k" by (rule filter_True)
  then have "length (filter ?P (map ?blk [0..<np] ! k)) = spb" using assms(2) by simp
  moreover have "length (filter ?P (map ?blk [0..<np] ! k))
        \<le> length (filter ?P (concat (map ?blk [0..<np])))"
    using assms(2) by (intro length_filter_concat_ge) simp
  ultimately show ?thesis
    by (simp only: stat_invalid_bank_summary bank_sensor_indices_nth[OF assms(1)])
qed

lemma static_checks_total:
  assumes "\<forall>j < length rs. \<exists>a. static_checks_channel settings bsi cal med (ch + int j) (rs ! j) = Inr a"
  shows "\<exists>as. static_checks settings bsi cal med ch rs alerts = Inr (alerts @ as) \<and>
           (\<forall>j < length rs. \<forall>a.
              static_checks_channel settings bsi cal med (ch + int j) (rs ! j) = Inr a
              \<longrightarrow> set a \<subseteq> set as)"
  using assms
proof (induction rs arbitrary: ch alerts)
  case Nil
  then show ?case by simp
next
  case (Cons r rs)
  have shift: "ch + int (Suc j) = ch + 1 + int j" for j by simp
  from Cons.prems[rule_format, of 0] obtain a0 where
    a0: "static_checks_channel settings bsi cal med ch r = Inr a0" by auto
  have "\<forall>j < length rs. \<exists>a. static_checks_channel settings bsi cal med ((ch + 1) + int j) (rs ! j) = Inr a"
  proof (intro allI impI)
    fix j assume "j < length rs"
    then have "Suc j < length (r # rs)" by simp
    from Cons.prems[rule_format, OF this] show
      "\<exists>a. static_checks_channel settings bsi cal med ((ch + 1) + int j) (rs ! j) = Inr a"
      by (simp add: add.assoc)
  qed
  from Cons.IH[OF this, of "alerts @ a0"] obtain as where
    s: "static_checks settings bsi cal med (ch + 1) rs (alerts @ a0) = Inr ((alerts @ a0) @ as)"
    and e: "\<forall>j < length rs. \<forall>a.
              static_checks_channel settings bsi cal med ((ch + 1) + int j) (rs ! j) = Inr a
              \<longrightarrow> set a \<subseteq> set as"
    by blast
  have "\<forall>j < length (r # rs). \<forall>a.
              static_checks_channel settings bsi cal med (ch + int j) ((r # rs) ! j) = Inr a
              \<longrightarrow> set a \<subseteq> set (a0 @ as)"
  proof (intro allI impI)
    fix j a assume j: "j < length (r # rs)"
      and a: "static_checks_channel settings bsi cal med (ch + int j) ((r # rs) ! j) = Inr a"
    show "set a \<subseteq> set (a0 @ as)"
    proof (cases j)
      case 0
      with a a0 show ?thesis by simp
    next
      case (Suc j')
      with j a e[rule_format, of j' a] show ?thesis by (auto simp: add.assoc)
    qed
  qed
  with a0 s show ?case by (intro exI[of _ "a0 @ as"]) simp
qed

lemma static_checks_channel_invalid:
  assumes "raw \<le> valid_min settings"
  shows "static_checks_channel settings bsi cal med ch raw =
           Inr [Invalid_reading (fst (get_battery_and_local_ch ch)) (get_bank_for_channel bsi ch)
                  (snd (get_battery_and_local_ch ch)) (valid_min settings)]"
  using assms
  by (simp add: static_checks_channel_def check_invalid_reading_def Let_def split: prod.splits)

lemma static_checks_channel_total:
  assumes "i < np * (nb * spb)" and "length cal = np * (nb * spb)"
    and "(cal ! i = None) = (raw \<le> valid_min settings)" and "length med = nb"
  shows "\<exists>a. static_checks_channel settings (bank_sensor_indices nb spb np) cal med (int i + 1) raw
              = Inr a"
proof (cases "raw \<le> valid_min settings")
  case True
  then show ?thesis by (simp add: static_checks_channel_invalid)
next
  case False
  with assms(3) obtain c where c: "cal ! i = Some c" by auto
  from get_bank_for_channel_valid[OF assms(1)] obtain b where
    b: "get_bank_for_channel (bank_sensor_indices nb spb np) (int i + 1) = Some b" "b \<le> nb"
    by blast
  have r: "\<not> (int i + 1 < 1 \<or> int (length cal) < int i + 1)" "nat (int i + 1 - 1) = i"
    "\<not> length cal \<le> i"
    using assms(1,2) by linarith+
  show ?thesis
    using False c b assms(4)
    by (simp add: static_checks_channel_def check_invalid_reading_def r)
qed

lemma poll_temperatures_failed_unit:
  assumes cfg: "num_series_banks settings = nb" "sensors_per_bank settings = spb"
      "number_of_parallel_batteries settings = np" "length (modbus_slave_addresses settings) = np"
      "0 < nb" "0 < spb"
    and units: "\<forall>i < np. (\<exists>m. unit_result settings unit_env i = ErrorMessage m) \<or>
                  (\<exists>ts. unit_result settings unit_env i = Temperatures ts \<and> length ts = nb * spb)"
    and fail: "k < np" "unit_result settings unit_env k = ErrorMessage msg"
    and cal: "startup_set st \<longrightarrow>
                (\<exists>offs. startup_offsets st = Some offs \<and> np * (nb * spb) \<le> length offs)"
  shows "\<exists>out. poll_temperatures settings unit_env st = Inr (st, out) \<and>
           length (raw_temps out) = np * (nb * spb) \<and>
           length (poll_calibrated out) = np * (nb * spb) \<and>
           length (bank_stats out) = nb \<and>
           Slave_failed (modbus_slave_addresses settings ! k) msg \<in> set (poll_alerts out) \<and>
           (\<forall>j < nb * spb.
              raw_temps out ! (k * (nb * spb) + j) = valid_min settings \<and>
              poll_calibrated out ! (k * (nb * spb) + j) = None \<and>
              static_checks_channel settings (bank_sensor_indices nb spb np) (poll_calibrated out)
                  (map stat_median (bank_stats out)) (int (k * (nb * spb) + j) + 1)
                  (raw_temps out ! (k * (nb * spb) + j))
                = Inr [Invalid_reading (fst (get_battery_and_local_ch (int (k * (nb * spb) + j) + 1)))
                         (get_bank_for_channel (bank_sensor_indices nb spb np)
                            (int (k * (nb * spb) + j) + 1))
                         (snd (get_battery_and_local_ch (int (k * (nb * spb) + j) + 1)))
                         (valid_min settings)] \<and>
              Invalid_reading (fst (get_battery_and_local_ch (int (k * (nb * spb) + j) + 1)))
                  (get_bank_for_channel (bank_sensor_indices nb spb np)
                     (int (k * (nb * spb) + j) + 1))
                  (snd (get_battery_and_local_ch (int (k * (nb * spb) + j) + 1)))
                  (valid_min settings) \<in> set (poll_alerts out)) \<and>
           (\<forall>b < nb. spb \<le> stat_invalid (bank_stats out ! b))"
proof -
  let ?w = "nb * spb" and ?addrs = "modbus_slave_addresses settings"
  let ?bsi = "bank_sensor_indices nb spb np"
  let ?ps = "zip [0..<length ?addrs] ?addrs"
  let ?vm = "valid_min settings"
  have w: "0 < ?w" using cfg(5,6) by simp
  have lps: "length ?ps = np" using cfg(4) by simp
  have psn: "?ps ! n = (n, ?addrs ! n)" if "n < np" for n using that cfg(4) by simp
  have R: "fst (read_ntc_sensors (unit_env (fst p)) ?w (scaling_factor settings)
                  (max_retries settings) (snd p)) = unit_result settings unit_env (fst p)
           \<and> fst p < np"
    if "p \<in> set ?ps" for p
  proof -
    from that obtain n where "n < np" "p = ?ps ! n" using lps by (metis in_set_conv_nth)
    with psn show ?thesis by (simp add: unit_result_def cfg(1,2))
  qed
  have "\<forall>p \<in> set ?ps.
          (\<exists>m. fst (read_ntc_sensors (unit_env (fst p)) ?w (scaling_factor settings)
                       (max_retries settings) (snd p)) = ErrorMessage m) \<or>
          (\<exists>ts. fst (read_ntc_sensors (unit_env (fst p)) ?w (scaling_factor settings)
                        (max_retries settings) (snd p)) = Temperatures ts \<and> length ts = ?w)"
    using R units by simp
  from read_all_units_aligned[OF this, of "[]" "[]"] obtain alerts raw where
    ru: "read_all_units settings ?w unit_env ?ps ([], []) = Inr (alerts, raw)"
    and lraw: "length raw = np * ?w"
    and failed: "\<forall>n < np. \<forall>m.
          fst (read_ntc_sensors (unit_env (fst (?ps ! n))) ?w (scaling_factor settings)
                 (max_retries settings) (snd (?ps ! n))) = ErrorMessage m \<longrightarrow>
          Slave_failed (snd (?ps ! n)) m \<in> set alerts \<and>
          (\<forall>j < ?w. raw ! (n * ?w + j) = ?vm)"
    using lps by auto
  have "fst (read_ntc_sensors (unit_env (fst (?ps ! k))) ?w (scaling_factor settings)
                 (max_retries settings) (snd (?ps ! k))) = ErrorMessage msg"
    using fail psn[OF fail(1)] by (simp add: unit_result_def cfg(1,2))
  with failed fail(1) psn[OF fail(1)] have sf: "Slave_failed (?addrs ! k) msg \<in> set alerts"
    and sent: "\<forall>j < ?w. raw ! (k * ?w + j) = ?vm"
    by auto
  have idx: "k * ?w + j < np * ?w" if "j < ?w" for j
  proof -
    have "Suc k * ?w \<le> np * ?w" using fail(1) by (intro mult_le_mono1) simp
    with that show ?thesis by simp
  qed
  have cst: "calibrate settings (np * ?w) raw st = Inr st"
  proof (cases "startup_set st")
    case True
    with cal show ?thesis by (intro calibrate_once) auto
  next
    case False
    have "raw ! (k * ?w + 0) \<in> set raw" using idx[OF w] lraw by (intro nth_mem) simp
    moreover have "raw ! (k * ?w + 0) \<le> ?vm" using sent[rule_format, OF w] by simp
    ultimately have "\<exists>t \<in> set raw. t \<le> ?vm" by blast
    with False lraw show ?thesis by (intro calibrate_not_all_valid)
  qed
  from apply_offsets_total[OF lraw cal, of settings] obtain cald where
    ao: "apply_offsets settings (np * ?w) st raw = Inr cald" and lcal: "length cald = np * ?w"
    and none: "\<forall>i < np * ?w. (cald ! i = None) = (raw ! i \<le> ?vm)"
    by blast
  have cnone: "cald ! (k * ?w + j) = None" if "j < ?w" for j
    using none idx[OF that] sent that by simp
  let ?stats = "map (bank_summary cald) ?bsi"
  have cb: "compute_bank_medians ?bsi cald = Inr ?stats"
    using lcal by (rule compute_bank_medians_total)
  have lst: "length ?stats = nb" by (simp add: bank_sensor_indices_length)
  have inv: "spb \<le> stat_invalid (?stats ! b)" if "b < nb" for b
  proof -
    have "spb \<le> stat_invalid (bank_summary cald (?bsi ! b))"
      using that fail(1) cnone by (intro bank_invalid_lower_bound) blast+
    then show ?thesis using that by (simp add: bank_sensor_indices_length)
  qed
  let ?med = "map stat_median ?stats"
  have "\<forall>j < length raw. \<exists>a. static_checks_channel settings ?bsi cald ?med (1 + int j) (raw ! j) = Inr a"
  proof (intro allI impI)
    fix j assume "j < length raw"
    then have j: "j < np * ?w" using lraw by simp
    from static_checks_channel_total[OF j lcal none[rule_format, OF j], of ?med] lst
    show "\<exists>a. static_checks_channel settings ?bsi cald ?med (1 + int j) (raw ! j) = Inr a"
      by (simp add: add.commute)
  qed
  from static_checks_total[OF this, of alerts] obtain as where
    sc: "static_checks settings ?bsi cald ?med 1 raw alerts = Inr (alerts @ as)"
    and sub: "\<forall>j < length raw. \<forall>a.
          static_checks_channel settings ?bsi cald ?med (1 + int j) (raw ! j) = Inr a
          \<longrightarrow> set a \<subseteq> set as"
    by blast
  let ?out = "\<lparr>raw_temps = raw, poll_calibrated = cald, bank_stats = ?stats,
               poll_alerts = alerts @ as\<rparr>"
  have p: "poll_temperatures settings unit_env st = Inr (st, ?out)"
    unfolding poll_temperatures_def Let_def cfg(1,2,3)
    by (simp only: ru cst ao cb sc sum.case prod.case)
  have ch: "static_checks_channel settings ?bsi cald ?med (int (k * ?w + j) + 1) (raw ! (k * ?w + j))
              = Inr [Invalid_reading (fst (get_battery_and_local_ch (int (k * ?w + j) + 1)))
                       (get_bank_for_channel ?bsi (int (k * ?w + j) + 1))
                       (snd (get_battery_and_local_ch (int (k * ?w + j) + 1))) ?vm]"
    if "j < ?w" for j
    using sent that by (intro static_checks_channel_invalid) simp
  have mem: "Invalid_reading (fst (get_battery_and_local_ch (int (k * ?w + j) + 1)))
                       (get_bank_for_channel ?bsi (int (k * ?w + j) + 1))
                       (snd (get_battery_and_local_ch (int (k * ?w + j) + 1))) ?vm
               \<in> set (alerts @ as)"
    if "j < ?w" for j
  proof -
    have "k * ?w + j < length raw" using idx[OF that] lraw by simp
    from sub[rule_format, OF this] ch[OF that] show ?thesis by (simp add: add.commute)
  qed
  show ?thesis
    using p lraw lcal lst sf sent cnone ch mem inv
    by (intro exI[of _ ?out]) simp
qed

subsection \<open>The sentinel of a failed unit\<close>

lemma demo_unit_result_0:
  "unit_result demo_pair_settings demo_unit_env 0 = Temperatures [25, 26]"
proof -
  have c: "crc_ok [1, 3, 4, 0x09, 0xC4, 0x0A, 0x28, 0xBE, 0xEC]" by code_simp
  have s: "str_of_nat 1 = ''1''" by code_simp
  have "validate_response [1, 3, 4, 0x09, 0xC4, 0x0A, 0x28, 0xBE, 0xEC] 1 2 100 =
          Return (Temperatures [25, 26])"
    by (simp add: validate_response_def c int_from_bytes_big_signed_def del: str_of_nat.simps)
  moreover have "[0..<3 :: nat] = [0, 1, 2]" by code_simp
  ultimately show ?thesis
    by (simp add: unit_result_def demo_pair_settings_def demo_unit_env_def read_ntc_sensors_def
        del: str_of_nat.simps upt_rec_numeral)
qed

lemma demo_unit_result_1:
  "unit_result demo_pair_settings demo_unit_env 1 =
     ErrorMessage ''Error: Failed after 3 attempts for slave 2''"
proof -
  have s: "str_of_nat 2 = ''2''" "str_of_nat 3 = ''3''" by code_simp+
  have "ntc_attempts (demo_unit_env 1) 2 2 100 3 [0..<3] 0 =
          (ErrorMessage (''Error: Failed after '' @ str_of_nat 3 @ '' attempts for slave ''
                           @ str_of_nat 2), 3 - 0)"
    by (intro ntc_attempts_all_socket_errors) (simp_all add: demo_unit_env_def)
  then show ?thesis
    by (simp add: unit_result_def demo_pair_settings_def read_ntc_sensors_def s
        del: str_of_nat.simps upt_rec_numeral)
qed

text \<open>
  Claim C10. In a poll in which the unit at position \<open>k\<close> returns an error string, and
  every other unit returns an error string or one reading per sensor of a battery, each
  channel of unit \<open>k\<close> has the raw value \<^verbatim>\<open>valid_min\<close> and the calibrated value \<^verbatim>\<open>None\<close>;
  the calibration state is left as it was; the pass of the check loop for the channel
  appends the invalid-reading alert and nothing else, so none of the high, low and
  deviation checks runs for it; the alert for the unit and the alert for the channel are
  in the alert list of the poll; and every bank counts at least \<^verbatim>\<open>sensors_per_bank\<close>
  invalid readings, those of unit \<open>k\<close> in that bank.
\<close>

theorem failed_unit_sentinel_propagation:
  assumes "num_series_banks settings = nb" and "sensors_per_bank settings = spb"
    and "number_of_parallel_batteries settings = np"
    and "length (modbus_slave_addresses settings) = np" and "0 < nb" and "0 < spb"
    and "\<forall>i < np. (\<exists>m. unit_result settings unit_env i = ErrorMessage m) \<or>
                  (\<exists>ts. unit_result settings unit_env i = Temperatures ts \<and> length ts = nb * spb)"
    and "k < np" and "unit_result settings unit_env k = ErrorMessage msg"
    and "startup_set st \<longrightarrow>
           (\<exists>offs. startup_offsets st = Some offs \<and> np * (nb * spb) \<le> length offs)"
  shows "\<exists>out. poll_temperatures settings unit_env st = Inr (st, out) \<and>
           Slave_failed (modbus_slave_addresses settings ! k) msg \<in> set (poll_alerts out) \<and>
           (\<forall>j < nb * spb.
              raw_temps out ! (k * (nb * spb) + j) = valid_min settings \<and>
              raw_temps out ! (k * (nb * spb) + j) \<le> valid_min settings \<and>
              poll_calibrated out ! (k * (nb * spb) + j) = None \<and>
              static_checks_channel settings (bank_sensor_indices nb spb np) (poll_calibrated out)
                  (map stat_median (bank_stats out)) (int (k * (nb * spb) + j) + 1)
                  (raw_temps out ! (k * (nb * spb) + j))
                = Inr [Invalid_reading (fst (get_battery_and_local_ch (int (k * (nb * spb) + j) + 1)))
                         (get_bank_for_channel (bank_sensor_indices nb spb np)
                            (int (k * (nb * spb) + j) + 1))
                         (snd (get_battery_and_local_ch (int (k * (nb * spb) + j) + 1)))
                         (valid_min settings)] \<and>
              Invalid_reading (fst (get_battery_and_local_ch (int (k * (nb * spb) + j) + 1)))
                  (get_bank_for_channel (bank_sensor_indices nb spb np)
                     (int (k * (nb * spb) + j) + 1))
                  (snd (get_battery_and_local_ch (int (k * (nb * spb) + j) + 1)))
                  (valid_min settings) \<in> set (poll_alerts out)) \<and>
           length (bank_stats out) = nb \<and>
           (\<forall>b < nb. spb \<le> stat_invalid (bank_stats out ! b))"
proof -
  from poll_temperatures_failed_unit[OF assms] obtain out where
    o1: "poll_temperatures settings unit_env st = Inr (st, out)"
    and o2: "length (bank_stats out) = nb"
    and o3: "Slave_failed (modbus_slave_addresses settings ! k) msg \<in> set (poll_alerts out)"
    and o4: "\<forall>j < nb * spb.
              raw_temps out ! (k * (nb * spb) + j) = valid_min settings \<and>
              poll_calibrated out ! (k * (nb * spb) + j) = None \<and>
              static_checks_channel settings (bank_sensor_indices nb spb np) (poll_calibrated out)
                  (map stat_median (bank_stats out)) (int (k * (nb * spb) + j) + 1)
                  (raw_temps out ! (k * (nb * spb) + j))
                = Inr [Invalid_reading (fst (get_battery_and_local_ch (int (k * (nb * spb) + j) + 1)))
                         (get_bank_for_channel (bank_sensor_indices nb spb np)
                            (int (k * (nb * spb) + j) + 1))
                         (snd (get_battery_and_local_ch (int (k * (nb * spb) + j) + 1)))
                         (valid_min settings)] \<and>
              Invalid_reading (fst (get_battery_and_local_ch (int (k * (nb * spb) + j) + 1)))
                  (get_bank_for_channel (bank_sensor_indices nb spb np)
                     (int (k * (nb * spb) + j) + 1))
                  (snd (get_battery_and_local_ch (int (k * (nb * spb) + j) + 1)))
                  (valid_min settings) \<in> set (poll_alerts out)"
    and o5: "\<forall>b < nb. spb \<le> stat_invalid (bank_stats out ! b)"
    by blast
  have le: "\<forall>j < nb * spb. raw_temps out ! (k * (nb * spb) + j) \<le> valid_min settings"
    using o4 by (simp del: of_nat_mult of_nat_add)
  from o1 o2 o3 o4 o5 le show ?thesis by blast
qed

text \<open>
  The small pack: unit 2 fails, so channels 3 and 4 carry the sentinel, and each of the
  two banks counts one invalid reading.
\<close>

theorem failed_unit_sentinel_propagation_witness:
  "\<exists>out. poll_temperatures demo_pair_settings demo_unit_env demo_state = Inr (demo_state, out) \<and>
     Slave_failed 2 ''Error: Failed after 3 attempts for slave 2'' \<in> set (poll_alerts out) \<and>
     raw_temps out ! 2 = 0 \<and> raw_temps out ! 3 = 0 \<and>
     poll_calibrated out ! 2 = None \<and> poll_calibrated out ! 3 = None \<and>
     length (bank_stats out) = 2 \<and>
     1 \<le> stat_invalid (bank_stats out ! 0) \<and> 1 \<le> stat_invalid (bank_stats out ! 1)"
proof -
  have u: "\<forall>i < 2. (\<exists>m. unit_result demo_pair_settings demo_unit_env i = ErrorMessage m) \<or>
             (\<exists>ts. unit_result demo_pair_settings demo_unit_env i = Temperatures ts \<and>
                    length ts = 2 * 1)"
  proof (intro allI impI)
    fix i :: nat assume "i < 2"
    then have "i = 0 \<or> i = 1" by linarith
    then show "(\<exists>m. unit_result demo_pair_settings demo_unit_env i = ErrorMessage m) \<or>
             (\<exists>ts. unit_result demo_pair_settings demo_unit_env i = Temperatures ts \<and>
                    length ts = 2 * 1)"
      using demo_unit_result_0 demo_unit_result_1 by auto
  qed
  have c: "num_series_banks demo_pair_settings = 2" "sensors_per_bank demo_pair_settings = 1"
    "number_of_parallel_batteries demo_pair_settings = 2"
    "length (modbus_slave_addresses demo_pair_settings) = 2" "(0 :: nat) < 2" "(0 :: nat) < 1"
    by (simp_all add: demo_pair_settings_def)
  have s: "startup_set demo_state \<longrightarrow>
             (\<exists>offs. startup_offsets demo_state = Some offs \<and> 2 * (2 * 1) \<le> length offs)"
    by (simp add: demo_state_def)
  have k: "(1 :: nat) < 2" by simp
  from failed_unit_sentinel_propagation [OF c u k demo_unit_result_1 s]
  obtain out where o: "poll_temperatures demo_pair_settings demo_unit_env demo_state
        = Inr (demo_state, out)"
    "Slave_failed (modbus_slave_addresses demo_pair_settings ! 1)
        ''Error: Failed after 3 attempts for slave 2'' \<in> set (poll_alerts out)"
    "\<forall>j < 2 * 1. raw_temps out ! (1 * (2 * 1) + j) = valid_min demo_pair_settings \<and>
                  poll_calibrated out ! (1 * (2 * 1) + j) = None"
    "length (bank_stats out) = 2"
    "\<forall>b < 2. 1 \<le> stat_invalid (bank_stats out ! b)"
    by blast
  from o(3)[rule_format, of 0] o(3)[rule_format, of 1]
  have r: "raw_temps out ! 2 = 0" "raw_temps out ! 3 = 0"
    "poll_calibrated out ! 2 = None" "poll_calibrated out ! 3 = None"
    by (simp_all add: demo_pair_settings_def)
  from o(5)[rule_format, of 0] o(5)[rule_format, of 1]
  have b: "1 \<le> stat_invalid (bank_stats out ! 0)" "1 \<le> stat_invalid (bank_stats out ! 1)"
    by simp_all
  from o(2) have a: "Slave_failed 2 ''Error: Failed after 3 attempts for slave 2''
       \<in> set (poll_alerts out)"
    by (simp add: demo_pair_settings_def)
  from o(1) a r o(4) b show ?thesis by blast
qed

section \<open>Properties of a poll cycle: what an acquisition failure publishes\<close>

subsection \<open>A concrete poll of the small pack\<close>

lemma demo_bank1: "read_voltage_with_retry demo_pair_settings (bus_reads_of demo_poll_env 1) 1 = Inr None"
  by (simp add: read_voltage_with_retry_def demo_pair_settings_def demo_poll_env_def
      sample_voltage_def raw_adc_of_def average_valid_def)

lemma demo_bank2: "read_voltage_with_retry demo_pair_settings (bus_reads_of demo_poll_env 2) 2 = Inr (Some (512 / 25))"
  by (simp add: read_voltage_with_retry_def demo_pair_settings_def demo_poll_env_def
      sample_voltage_def raw_adc_of_def average_valid_def)

lemma demo_voltages: "read_battery_voltages demo_pair_settings (bus_reads_of demo_poll_env) = Inr [0, 512 / 25]"
proof -
  have "num_series_banks demo_pair_settings + 1 = 3" by (simp add: demo_pair_settings_def)
  moreover have "[1..<3 :: nat] = [1, 2]" by code_simp
  ultimately have u: "[1..<num_series_banks demo_pair_settings + 1] = [1, 2]" by simp
  show ?thesis
    unfolding read_battery_voltages_def u
    by (simp only: list.map demo_bank1 demo_bank2 sum.case option.case collect.simps)
qed

lemma demo_bsi: "bank_sensor_indices 2 1 2 = [[0, 2], [1, 3]]"
  by code_simp

lemma demo_read_all:
  "read_all_units demo_pair_settings 2 demo_unit_env [(0, 1), (1, 2)] ([], []) =
     Inr ([Slave_failed 2 ''Error: Failed after 3 attempts for slave 2''], [25, 26, 0, 0])"
  using demo_unit_result_0 demo_unit_result_1
  by (simp add: unit_result_def demo_pair_settings_def numeral_2_eq_2)

lemma demo_poll_temperatures:
  "poll_temperatures demo_pair_settings demo_unit_env demo_state =
     Inr (demo_state,
          \<lparr>raw_temps = [25, 26, 0, 0], poll_calibrated = [Some 25, Some 26, None, None],
           bank_stats = [\<lparr>stat_median = 25, stat_min = 25, stat_max = 25, stat_invalid = 1\<rparr>,
                         \<lparr>stat_median = 26, stat_min = 26, stat_max = 26, stat_invalid = 1\<rparr>],
           poll_alerts = [Slave_failed 2 ''Error: Failed after 3 attempts for slave 2'',
                          Invalid_reading 1 (Some 1) 3 0, Invalid_reading 1 (Some 2) 4 0]\<rparr>)"
proof -
  have z: "zip [0..<length (modbus_slave_addresses demo_pair_settings)]
             (modbus_slave_addresses demo_pair_settings) = [(0, 1), (1, 2)]"
    by (simp add: demo_pair_settings_def upt_rec)
  have c: "num_series_banks demo_pair_settings = 2" "sensors_per_bank demo_pair_settings = 1"
    "number_of_parallel_batteries demo_pair_settings = 2" "valid_min demo_pair_settings = 0"
    by (simp_all add: demo_pair_settings_def)
  have k: "calibrate demo_pair_settings 4 [25, 26, 0, 0] demo_state = Inr demo_state"
    by (simp add: calibrate_def c demo_state_def)
  have i: "[0..<4 :: nat] = [0, 1, 2, 3]" by code_simp
  have a: "apply_offsets demo_pair_settings 4 demo_state [25, 26, 0, 0]
             = Inr [Some 25, Some 26, None, None]"
    by (simp add: apply_offsets_def i calibrated_at_def c demo_state_def)
  have b: "compute_bank_medians [[0, 2], [1, 3]] [Some 25, Some 26, None, None] =
             Inr [\<lparr>stat_median = 25, stat_min = 25, stat_max = 25, stat_invalid = 1\<rparr>,
                  \<lparr>stat_median = 26, stat_min = 26, stat_max = 26, stat_invalid = 1\<rparr>]"
    by (simp add: compute_bank_medians_def bank_stat_of_def bank_summary_def
        List.map_filter_simps py_median_def)
  have s: "static_checks demo_pair_settings [[0, 2], [1, 3]] [Some 25, Some 26, None, None]
             [25, 26] 1 [25, 26, 0, 0]
             [Slave_failed 2 ''Error: Failed after 3 attempts for slave 2''] =
           Inr [Slave_failed 2 ''Error: Failed after 3 attempts for slave 2'',
                Invalid_reading 1 (Some 1) 3 0, Invalid_reading 1 (Some 2) 4 0]"
    by (simp add: static_checks_channel_def check_invalid_reading_def check_high_temp_def
        check_low_temp_def check_deviation_def get_bank_for_channel_def
        get_battery_and_local_ch_def demo_pair_settings_def)
  have m: "(2 :: nat) * 1 = 2" "(2 :: nat) * 2 = 4" by simp_all
  have sm: "map stat_median
              [\<lparr>stat_median = 25, stat_min = 25, stat_max = 25, stat_invalid = 1\<rparr>,
               \<lparr>stat_median = 26, stat_min = 26, stat_max = 26, stat_invalid = 1\<rparr>] = [25, 26]"
    by simp
  show ?thesis
    unfolding poll_temperatures_def Let_def z c
    by (simp only: m demo_bsi demo_read_all k a b s sm sum.case prod.case)
qed

lemma demo_poll_cycle:
  "poll_cycle demo_pair_settings demo_poll_env demo_state =
     Inr (demo_state\<lparr>web_voltages := [0, 512 / 25],
                     web_temperatures := [Some 25, Some 26, None, None],
                     web_alerts := [Zero_voltage 1,
                                    Slave_failed 2 ''Error: Failed after 3 attempts for slave 2'',
                                    Invalid_reading 1 (Some 1) 3 0, Invalid_reading 1 (Some 2) 4 0]\<rparr>,
          \<lparr>raw_temps = [25, 26, 0, 0], poll_calibrated = [Some 25, Some 26, None, None],
           bank_stats = [\<lparr>stat_median = 25, stat_min = 25, stat_max = 25, stat_invalid = 1\<rparr>,
                         \<lparr>stat_median = 26, stat_min = 26, stat_max = 26, stat_invalid = 1\<rparr>],
           poll_alerts = [Slave_failed 2 ''Error: Failed after 3 attempts for slave 2'',
                          Invalid_reading 1 (Some 1) 3 0, Invalid_reading 1 (Some 2) 4 0]\<rparr>,
          \<lparr>alert_needed = True,
           all_alerts = [Zero_voltage 1,
                         Slave_failed 2 ''Error: Failed after 3 attempts for slave 2'',
                         Invalid_reading 1 (Some 1) 3 0, Invalid_reading 1 (Some 2) 4 0],
           relay_actuations = [], balance_logged = None,
           temps_alerts_out = [Slave_failed 2 ''Error: Failed after 3 attempts for slave 2'',
                               Invalid_reading 1 (Some 1) 3 0, Invalid_reading 1 (Some 2) 4 0]\<rparr>)"
proof -
  have t: "poll_temperatures demo_pair_settings (unit_envs demo_poll_env) demo_state =
     Inr (demo_state,
          \<lparr>raw_temps = [25, 26, 0, 0], poll_calibrated = [Some 25, Some 26, None, None],
           bank_stats = [\<lparr>stat_median = 25, stat_min = 25, stat_max = 25, stat_invalid = 1\<rparr>,
                         \<lparr>stat_median = 26, stat_min = 26, stat_max = 26, stat_invalid = 1\<rparr>],
           poll_alerts = [Slave_failed 2 ''Error: Failed after 3 attempts for slave 2'',
                          Invalid_reading 1 (Some 1) 3 0, Invalid_reading 1 (Some 2) 4 0]\<rparr>)"
    using demo_poll_temperatures by (simp add: demo_poll_env_def)
  have d: "balance_decision demo_pair_settings
             \<lparr>battery_voltages = [0, 512 / 25],
              temps_alerts = [Slave_failed 2 ''Error: Failed after 3 attempts for slave 2'',
                              Invalid_reading 1 (Some 1) 3 0, Invalid_reading 1 (Some 2) 4 0],
              calibrated_temps = [Some 25, Some 26, None, None],
              current_time = 1000,
              balance_run = poll_balance_run demo_poll_env\<rparr> demo_state =
     Inr (demo_state\<lparr>web_voltages := [0, 512 / 25],
                     web_temperatures := [Some 25, Some 26, None, None],
                     web_alerts := [Zero_voltage 1,
                                    Slave_failed 2 ''Error: Failed after 3 attempts for slave 2'',
                                    Invalid_reading 1 (Some 1) 3 0, Invalid_reading 1 (Some 2) 4 0]\<rparr>,
          \<lparr>alert_needed = True,
           all_alerts = [Zero_voltage 1,
                         Slave_failed 2 ''Error: Failed after 3 attempts for slave 2'',
                         Invalid_reading 1 (Some 1) 3 0, Invalid_reading 1 (Some 2) 4 0],
           relay_actuations = [], balance_logged = None,
           temps_alerts_out = [Slave_failed 2 ''Error: Failed after 3 attempts for slave 2'',
                               Invalid_reading 1 (Some 1) 3 0, Invalid_reading 1 (Some 2) 4 0]\<rparr>)"
    by (simp add: balance_decision_def check_for_issues_def publish_def demo_pair_settings_def
        demo_state_def)
  have e: "later_alerts demo_poll_env = []" "poll_time demo_poll_env = 1000"
    by (simp_all add: demo_poll_env_def)
  show ?thesis
    unfolding poll_cycle_def t
    by (simp only: demo_voltages d e sum.case prod.case temperature_poll.simps append_Nil2)
qed

subsection \<open>The stages of a poll cycle\<close>

lemma collect_Inr_nth:
  "collect xs = Inr vs \<Longrightarrow> length vs = length xs \<and> (\<forall>n < length xs. xs ! n = Inr (vs ! n))"
proof (induction xs arbitrary: vs)
  case Nil
  then show ?case by simp
next
  case (Cons x xs)
  then obtain v vs' where x: "x = Inr v" and c: "collect xs = Inr vs'" and vs: "vs = v # vs'"
    by (auto split: sum.splits)
  from Cons.IH[OF c] x vs show ?case by (auto simp: nth_Cons split: nat.splits)
qed

lemma read_battery_voltages_failed:
  assumes "read_battery_voltages settings reads = Inr vs"
    and "1 \<le> i" and "i \<le> num_series_banks settings"
    and "read_voltage_with_retry settings (reads i) i = Inr None"
  shows "length vs = num_series_banks settings \<and> vs ! (i - 1) = 0"
proof -
  let ?g = "\<lambda>i. case read_voltage_with_retry settings (reads i) i of
                    Inl e \<Rightarrow> Inl e
                  | Inr v \<Rightarrow> Inr (case v of None \<Rightarrow> 0 | Some x \<Rightarrow> x)"
  define xs where "xs = [1..<num_series_banks settings + 1]"
  have c: "collect (map ?g xs) = Inr vs"
    using assms(1) by (simp only: read_battery_voltages_def xs_def)
  from collect_Inr_nth[OF c]
  have l: "length vs = length xs" and n: "\<forall>n < length xs. map ?g xs ! n = Inr (vs ! n)"
    by simp_all
  have lx: "length xs = num_series_banks settings" by (simp add: xs_def del: upt_Suc)
  have "xs ! (i - 1) = 1 + (i - 1)"
    unfolding xs_def using assms(2,3) by (intro nth_upt) linarith
  then have xi: "xs ! (i - 1) = i" using assms(2) by simp
  have "i - 1 < length xs" using assms(2,3) lx by linarith
  with n have "map ?g xs ! (i - 1) = Inr (vs ! (i - 1))" "map ?g xs ! (i - 1) = ?g (xs ! (i - 1))"
    by simp_all
  then have "?g i = Inr (vs ! (i - 1))" by (simp only: xi)
  with assms(4) l lx show ?thesis by simp
qed

lemma voltage_alerts_zero:
  "n < length vs \<Longrightarrow> vs ! n = Some 0 \<Longrightarrow> Zero_voltage (start + n) \<in> set (voltage_alerts settings start vs)"
proof (induction vs arbitrary: n start)
  case Nil
  then show ?case by simp
next
  case (Cons v vs)
  show ?case
  proof (cases n)
    case 0
    with Cons.prems show ?thesis by simp
  next
    case (Suc n')
    with Cons.prems Cons.IH[of n' "Suc start"] show ?thesis by simp
  qed
qed

lemma balance_decision_publishes:
  assumes "balance_decision settings inp st = Inr (st', out)"
  shows "web_voltages st' = battery_voltages inp \<and> web_temperatures st' = calibrated_temps inp \<and>
         web_alerts st' = all_alerts out \<and>
         (alert_needed out, all_alerts out) =
           check_for_issues st settings (map Some (battery_voltages inp)) (temps_alerts inp)"
  using assms
  by (auto simp: balance_decision_def Let_def publish_def split: if_splits prod.splits sum.splits)

lemma read_all_units_alerts:
  assumes "read_all_units settings w unit_env ps (al, raw) = Inr (al', raw')"
  shows "set al \<subseteq> set al' \<and>
         (\<forall>p \<in> set ps. \<forall>m. fst (read_ntc_sensors (unit_env (fst p)) w (scaling_factor settings)
                                     (max_retries settings) (snd p)) = ErrorMessage m
                \<longrightarrow> Slave_failed (snd p) m \<in> set al')"
  using assms
proof (induction ps arbitrary: al raw)
  case Nil
  then show ?case by simp
next
  case (Cons p ps)
  obtain i addr where p: "p = (i, addr)" by (cases p)
  show ?case
  proof (cases "fst (read_ntc_sensors (unit_env i) w (scaling_factor settings)
                      (max_retries settings) addr)")
    case (Temperatures ts)
    with Cons.prems p have "read_all_units settings w unit_env ps (al, raw @ ts) = Inr (al', raw')"
      by simp
    from Cons.IH[OF this] Temperatures p show ?thesis by auto
  next
    case (ErrorMessage m0)
    with Cons.prems p have
      "read_all_units settings w unit_env ps
         (al @ [Slave_failed addr m0], raw @ replicate w (valid_min settings)) = Inr (al', raw')"
      by simp
    from Cons.IH[OF this] ErrorMessage p show ?thesis by auto
  next
    case (Uncaught e)
    with Cons.prems p show ?thesis by simp
  qed
qed

lemma static_checks_mono:
  "static_checks settings bsi cal med ch rs alerts = Inr alerts' \<Longrightarrow> set alerts \<subseteq> set alerts'"
proof (induction rs arbitrary: ch alerts)
  case Nil
  then show ?case by simp
next
  case (Cons r rs)
  then obtain new where
    "static_checks settings bsi cal med (ch + 1) rs (alerts @ new) = Inr alerts'"
    by (auto split: sum.splits)
  from Cons.IH[OF this] show ?case by simp
qed

lemma poll_temperatures_stages:
  assumes "poll_temperatures settings unit_env st = Inr (st1, tp)"
  shows "\<exists>alerts raw cal (stats :: bank_stat list).
      read_all_units settings (num_series_banks settings * sensors_per_bank settings) unit_env
          (zip [0..<length (modbus_slave_addresses settings)] (modbus_slave_addresses settings))
          ([], []) = Inr (alerts, raw) \<and>
      static_checks settings
          (bank_sensor_indices (num_series_banks settings) (sensors_per_bank settings)
             (number_of_parallel_batteries settings))
          cal (map stat_median stats) 1 raw alerts = Inr (poll_alerts tp)"
proof -
  let ?w = "num_series_banks settings * sensors_per_bank settings"
  let ?n = "number_of_parallel_batteries settings * ?w"
  let ?bsi = "bank_sensor_indices (num_series_banks settings) (sensors_per_bank settings)
                (number_of_parallel_batteries settings)"
  let ?R = "read_all_units settings ?w unit_env
              (zip [0..<length (modbus_slave_addresses settings)] (modbus_slave_addresses settings))
              ([], [])"
  note d = poll_temperatures_def Let_def
  from assms obtain alerts raw where r: "?R = Inr (alerts, raw)"
    by (cases ?R) (auto simp: d)
  from assms r obtain st' where c: "calibrate settings ?n raw st = Inr st'"
    by (cases "calibrate settings ?n raw st") (auto simp: d)
  from assms r c obtain cal where a: "apply_offsets settings ?n st' raw = Inr cal"
    by (cases "apply_offsets settings ?n st' raw") (auto simp: d)
  from assms r c a obtain stats where b: "compute_bank_medians ?bsi cal = Inr stats"
    by (cases "compute_bank_medians ?bsi cal") (auto simp: d)
  from assms r c a b obtain alerts' where
    s: "static_checks settings ?bsi cal (map stat_median stats) 1 raw alerts = Inr alerts'"
    by (cases "static_checks settings ?bsi cal (map stat_median stats) 1 raw alerts")
      (auto simp: d)
  from assms r c a b s have "poll_alerts tp = alerts'" by (auto simp: d)
  with r s show ?thesis by blast
qed

lemma poll_temperatures_unit_alert:
  assumes "poll_temperatures settings unit_env st = Inr (st1, tp)"
    and "k < length (modbus_slave_addresses settings)"
    and "unit_result settings unit_env k = ErrorMessage msg"
  shows "Slave_failed (modbus_slave_addresses settings ! k) msg \<in> set (poll_alerts tp)"
proof -
  let ?addrs = "modbus_slave_addresses settings"
  let ?w = "num_series_banks settings * sensors_per_bank settings"
  let ?ps = "zip [0..<length ?addrs] ?addrs"
  from poll_temperatures_stages[OF assms(1)] obtain alerts raw cal and stats :: "bank_stat list" where
    r: "read_all_units settings ?w unit_env ?ps ([], []) = Inr (alerts, raw)"
    and s: "static_checks settings
              (bank_sensor_indices (num_series_banks settings) (sensors_per_bank settings)
                 (number_of_parallel_batteries settings))
              cal (map stat_median stats) 1 raw alerts = Inr (poll_alerts tp)"
    by blast
  have "(k, ?addrs ! k) \<in> set ?ps"
    using assms(2) by (auto simp: in_set_zip intro!: exI[of _ k])
  with read_all_units_alerts[OF r] assms(3)
  have "Slave_failed (?addrs ! k) msg \<in> set alerts"
    by (fastforce simp: unit_result_def)
  with static_checks_mono[OF s] show ?thesis by blast
qed

lemma check_for_issues_contains:
  assumes "(needed, alerts) = check_for_issues st settings vs ta"
  shows "set (voltage_alerts settings 1 vs) \<subseteq> set alerts \<and> set ta \<subseteq> set alerts \<and>
         (voltage_alerts settings 1 vs \<noteq> [] \<or> ta \<noteq> [] \<longrightarrow> needed)"
  using assms by (auto simp: check_for_issues_def Let_def)

lemma poll_cycle_stages:
  assumes "poll_cycle settings env st = Inr (st', tp, dout)"
  shows "\<exists>st1 voltages.
           poll_temperatures settings (unit_envs env) st = Inr (st1, tp) \<and>
           read_battery_voltages settings (bus_reads_of env) = Inr voltages \<and>
           balance_decision settings
             \<lparr>battery_voltages = voltages, temps_alerts = poll_alerts tp @ later_alerts env,
              calibrated_temps = poll_calibrated tp, current_time = poll_time env,
              balance_run = poll_balance_run env\<rparr> st1 = Inr (st', dout)"
proof -
  note d = poll_cycle_def
  from assms obtain st1 tp1 where
    t: "poll_temperatures settings (unit_envs env) st = Inr (st1, tp1)"
    by (cases "poll_temperatures settings (unit_envs env) st") (auto simp: d)
  from assms t obtain voltages where
    v: "read_battery_voltages settings (bus_reads_of env) = Inr voltages"
    by (cases "read_battery_voltages settings (bus_reads_of env)") (auto simp: d)
  from assms t v have
    "balance_decision settings
       \<lparr>battery_voltages = voltages, temps_alerts = poll_alerts tp1 @ later_alerts env,
        calibrated_temps = poll_calibrated tp1, current_time = poll_time env,
        balance_run = poll_balance_run env\<rparr> st1 = Inr (st', dout) \<and> tp1 = tp"
    by (auto simp: d split: sum.splits)
  with t v show ?thesis by blast
qed

text \<open>
  Claim C7, as the code has it. In a poll cycle that completes: a bank whose voltage read
  failed (\<^verbatim>\<open>read_voltage_with_retry\<close> returned \<^verbatim>\<open>None\<close>) is published in \<^verbatim>\<open>web_data['voltages']\<close>
  as 0.0, the value of a real zero reading, together with the alert for a zero voltage
  on that bank and the signal that attention is needed; a unit whose temperature read
  returned an error string is published as the alert for that unit with the same signal,
  and, when the other units returned an error or one reading per sensor, each channel of
  the unit is published as \<^verbatim>\<open>None\<close> in \<^verbatim>\<open>web_data['temperatures']\<close>.
\<close>

theorem acquisition_failure_published:
  assumes "poll_cycle settings env st = Inr (st', tp, dout)"
  shows "(\<forall>i. 1 \<le> i \<and> i \<le> num_series_banks settings \<and>
              read_voltage_with_retry settings (bus_reads_of env i) i = Inr None \<longrightarrow>
              web_voltages st' ! (i - 1) = 0 \<and> Zero_voltage i \<in> set (web_alerts st') \<and>
              alert_needed dout) \<and>
         (\<forall>k msg. k < length (modbus_slave_addresses settings) \<and>
              unit_result settings (unit_envs env) k = ErrorMessage msg \<longrightarrow>
              Slave_failed (modbus_slave_addresses settings ! k) msg \<in> set (web_alerts st') \<and>
              alert_needed dout \<and>
              (0 < num_series_banks settings \<and> 0 < sensors_per_bank settings \<and>
               length (modbus_slave_addresses settings) = number_of_parallel_batteries settings \<and>
               (\<forall>i < number_of_parallel_batteries settings.
                   (\<exists>m. unit_result settings (unit_envs env) i = ErrorMessage m) \<or>
                   (\<exists>ts. unit_result settings (unit_envs env) i = Temperatures ts \<and>
                         length ts = num_series_banks settings * sensors_per_bank settings)) \<and>
               (startup_set st \<longrightarrow>
                  (\<exists>offs. startup_offsets st = Some offs \<and>
                     number_of_parallel_batteries settings
                       * (num_series_banks settings * sensors_per_bank settings) \<le> length offs))
               \<longrightarrow>
               (\<forall>j < num_series_banks settings * sensors_per_bank settings.
                   web_temperatures st'
                     ! (k * (num_series_banks settings * sensors_per_bank settings) + j) = None)))"
proof -
  from poll_cycle_stages[OF assms] obtain st1 vs where
    t: "poll_temperatures settings (unit_envs env) st = Inr (st1, tp)"
    and v: "read_battery_voltages settings (bus_reads_of env) = Inr vs"
    and b: "balance_decision settings
             \<lparr>battery_voltages = vs, temps_alerts = poll_alerts tp @ later_alerts env,
              calibrated_temps = poll_calibrated tp, current_time = poll_time env,
              balance_run = poll_balance_run env\<rparr> st1 = Inr (st', dout)"
    by blast
  from balance_decision_publishes[OF b] have
    wv: "web_voltages st' = vs" and wt: "web_temperatures st' = poll_calibrated tp"
    and wa: "web_alerts st' = all_alerts dout"
    and ci: "(alert_needed dout, all_alerts dout) =
               check_for_issues st1 settings (map Some vs) (poll_alerts tp @ later_alerts env)"
    by simp_all
  note cc = check_for_issues_contains[OF ci]
  have volt: "web_voltages st' ! (i - 1) = 0 \<and> Zero_voltage i \<in> set (web_alerts st') \<and>
              alert_needed dout"
    if "1 \<le> i" "i \<le> num_series_banks settings"
      "read_voltage_with_retry settings (bus_reads_of env i) i = Inr None" for i
  proof -
    from read_battery_voltages_failed[OF v that] have
      l: "length vs = num_series_banks settings" and z: "vs ! (i - 1) = 0" by simp_all
    have "i - 1 < length (map Some vs)" "map Some vs ! (i - 1) = Some 0"
      using that(1,2) l z by simp_all
    from voltage_alerts_zero[OF this, of 1 settings] that(1)
    have m: "Zero_voltage i \<in> set (voltage_alerts settings 1 (map Some vs))" by simp
    then have "voltage_alerts settings 1 (map Some vs) \<noteq> []" by auto
    with m cc z show ?thesis by (auto simp: wv wa)
  qed
  have temp: "Slave_failed (modbus_slave_addresses settings ! k) msg \<in> set (web_alerts st') \<and>
              alert_needed dout"
    if "k < length (modbus_slave_addresses settings)"
      "unit_result settings (unit_envs env) k = ErrorMessage msg" for k msg
  proof -
    from poll_temperatures_unit_alert[OF t that]
    have m: "Slave_failed (modbus_slave_addresses settings ! k) msg \<in> set (poll_alerts tp)" .
    then have "poll_alerts tp @ later_alerts env \<noteq> []" by auto
    with m cc show ?thesis by (auto simp: wa)
  qed
  have none: "web_temperatures st'
                ! (k * (num_series_banks settings * sensors_per_bank settings) + j) = None"
    if "k < length (modbus_slave_addresses settings)"
      "unit_result settings (unit_envs env) k = ErrorMessage msg"
      "0 < num_series_banks settings" "0 < sensors_per_bank settings"
      "length (modbus_slave_addresses settings) = number_of_parallel_batteries settings"
      "\<forall>i < number_of_parallel_batteries settings.
                   (\<exists>m. unit_result settings (unit_envs env) i = ErrorMessage m) \<or>
                   (\<exists>ts. unit_result settings (unit_envs env) i = Temperatures ts \<and>
                         length ts = num_series_banks settings * sensors_per_bank settings)"
      "startup_set st \<longrightarrow>
                  (\<exists>offs. startup_offsets st = Some offs \<and>
                     number_of_parallel_batteries settings
                       * (num_series_banks settings * sensors_per_bank settings) \<le> length offs)"
      "j < num_series_banks settings * sensors_per_bank settings" for k msg j
  proof -
    have k: "k < number_of_parallel_batteries settings" using that(1,5) by simp
    from poll_temperatures_failed_unit[OF refl refl refl that(5,3,4,6) k that(2,7)]
    obtain out where "poll_temperatures settings (unit_envs env) st = Inr (st, out)"
      "\<forall>j < num_series_banks settings * sensors_per_bank settings.
         poll_calibrated out
           ! (k * (num_series_banks settings * sensors_per_bank settings) + j) = None"
      by blast
    with t that(8) show ?thesis by (simp add: wt)
  qed
  from volt temp none show ?thesis by blast
qed

text \<open>
  Claim C7 as stated fails: in this poll of the small pack the read of bank 1 fails, and
  the published voltage of bank 1 is 0.0.
\<close>

theorem failed_voltage_read_published_as_zero:
  "read_voltage_with_retry demo_pair_settings (bus_reads_of demo_poll_env 1) 1 = Inr None \<and>
   poll_cycle demo_pair_settings demo_poll_env demo_state =
     Inr (demo_state\<lparr>web_voltages := [0, 512 / 25],
                     web_temperatures := [Some 25, Some 26, None, None],
                     web_alerts := [Zero_voltage 1,
                                    Slave_failed 2 ''Error: Failed after 3 attempts for slave 2'',
                                    Invalid_reading 1 (Some 1) 3 0, Invalid_reading 1 (Some 2) 4 0]\<rparr>,
          \<lparr>raw_temps = [25, 26, 0, 0], poll_calibrated = [Some 25, Some 26, None, None],
           bank_stats = [\<lparr>stat_median = 25, stat_min = 25, stat_max = 25, stat_invalid = 1\<rparr>,
                         \<lparr>stat_median = 26, stat_min = 26, stat_max = 26, stat_invalid = 1\<rparr>],
           poll_alerts = [Slave_failed 2 ''Error: Failed after 3 attempts for slave 2'',
                          Invalid_reading 1 (Some 1) 3 0, Invalid_reading 1 (Some 2) 4 0]\<rparr>,
          \<lparr>alert_needed = True,
           all_alerts = [Zero_voltage 1,
                         Slave_failed 2 ''Error: Failed after 3 attempts for slave 2'',
                         Invalid_reading 1 (Some 1) 3 0, Invalid_reading 1 (Some 2) 4 0],
           relay_actuations = [], balance_logged = None,
           temps_alerts_out = [Slave_failed 2 ''Error: Failed after 3 attempts for slave 2'',
                               Invalid_reading 1 (Some 1) 3 0, Invalid_reading 1 (Some 2) 4 0]\<rparr>) \<and>
   web_voltages (demo_state\<lparr>web_voltages := [0, 512 / 25],
                     web_temperatures := [Some 25, Some 26, None, None],
                     web_alerts := [Zero_voltage 1,
                                    Slave_failed 2 ''Error: Failed after 3 attempts for slave 2'',
                                    Invalid_reading 1 (Some 1) 3 0, Invalid_reading 1 (Some 2) 4 0]\<rparr>)
     ! 0 = 0"
  using demo_bank1 demo_poll_cycle by simp

text \<open>
  The same poll: bank 1 and unit 2 fail; both failures are in the published alerts,
  bank 1 is published as 0.0 and the channels 3 and 4 of unit 2 as \<^verbatim>\<open>None\<close>.
\<close>

theorem acquisition_failure_published_witness:
  "read_voltage_with_retry demo_pair_settings (bus_reads_of demo_poll_env 1) 1 = Inr None \<and>
   unit_result demo_pair_settings (unit_envs demo_poll_env) 1 =
     ErrorMessage ''Error: Failed after 3 attempts for slave 2'' \<and>
   (\<exists>st' tp dout. poll_cycle demo_pair_settings demo_poll_env demo_state = Inr (st', tp, dout) \<and>
      web_voltages st' ! 0 = 0 \<and> Zero_voltage 1 \<in> set (web_alerts st') \<and> alert_needed dout \<and>
      Slave_failed 2 ''Error: Failed after 3 attempts for slave 2'' \<in> set (web_alerts st') \<and>
      web_temperatures st' ! 2 = None \<and> web_temperatures st' ! 3 = None)"
proof -
  let ?msg = "''Error: Failed after 3 attempts for slave 2''"
  have e: "unit_envs demo_poll_env = demo_unit_env" by (simp add: demo_poll_env_def)
  have u1: "unit_result demo_pair_settings (unit_envs demo_poll_env) 1 = ErrorMessage ?msg"
    using demo_unit_result_1 by (simp only: e)
  obtain st' tp dout where
    p: "poll_cycle demo_pair_settings demo_poll_env demo_state = Inr (st', tp, dout)"
    using demo_poll_cycle by blast
  note a = acquisition_failure_published [OF p]
  have c: "num_series_banks demo_pair_settings = 2" "sensors_per_bank demo_pair_settings = 1"
    "number_of_parallel_batteries demo_pair_settings = 2"
    "modbus_slave_addresses demo_pair_settings = [1, 2]"
    by (simp_all add: demo_pair_settings_def)
  from a[THEN conjunct1, rule_format, of 1] demo_bank1 c
  have v: "web_voltages st' ! 0 = 0" "Zero_voltage 1 \<in> set (web_alerts st')" "alert_needed dout"
    by simp_all
  have al: "\<forall>i < 2. (\<exists>m. unit_result demo_pair_settings (unit_envs demo_poll_env) i = ErrorMessage m) \<or>
             (\<exists>ts. unit_result demo_pair_settings (unit_envs demo_poll_env) i = Temperatures ts \<and>
                    length ts = 2 * 1)"
  proof (intro allI impI)
    fix i :: nat assume "i < 2"
    then have "i = 0 \<or> i = 1" by linarith
    then show "(\<exists>m. unit_result demo_pair_settings (unit_envs demo_poll_env) i = ErrorMessage m) \<or>
             (\<exists>ts. unit_result demo_pair_settings (unit_envs demo_poll_env) i = Temperatures ts \<and>
                    length ts = 2 * 1)"
      using demo_unit_result_0 demo_unit_result_1 unfolding e by auto
  qed
  have wf: "startup_set demo_state \<longrightarrow>
              (\<exists>offs. startup_offsets demo_state = Some offs \<and> 2 * (2 * 1) \<le> length offs)"
    by (simp add: demo_state_def)
  from a[THEN conjunct2, rule_format, of 1 ?msg] u1 c al wf
  have t: "Slave_failed 2 ?msg \<in> set (web_alerts st')"
    "\<forall>j < 2 * 1. web_temperatures st' ! (1 * (2 * 1) + j) = None"
    by simp_all
  from t(2)[rule_format, of 0] t(2)[rule_format, of 1]
  have n: "web_temperatures st' ! 2 = None" "web_temperatures st' ! 3 = None" by simp_all
  from demo_bank1 u1 p v t(1) n show ?thesis by blast
qed

end
